theory Spec2Isabelle
  imports Complex_Main "HOL-Library.List_Lexorder" "HOL-Library.Char_ord" "HOL-Library.Multiset"
begin

section \<open>Data model of the monitor dashboard (src/qantas-dashboard.ts)\<close>

text \<open>
  A field that the source declares as a \<open>number\<close> is a rational: the properties below
  depend on order and sums only, not on rounding, and \<open>NaN\<close> is the value \<open>None\<close> of an
  option where the source can produce it in such a field. A value read out of a JSON
  document of unknown shape is a \<open>jsval\<close>, whose numbers (\<open>jsnum\<close>) include the
  infinities and \<open>NaN\<close>; \<open>-0\<close> is \<open>0\<close>, and a value that is itself an array or an object
  is not modelled. A string is a list of (ASCII) characters;
  the default order of strings is the lexicographic one on character codes, which is the
  order of \<open>Array.prototype.sort()\<close>. The order of \<open>localeCompare\<close> belongs to the
  runtime and is a parameter.
\<close>

datatype jsnum = Num rat | Infinity | NegInfinity | NaN

datatype jsval = JUndefined | JNull | JBool bool | JNum jsnum | JStr string

text \<open>\<open>interface Leg\<close>. The HTTP handlers store the leg object of the request body as it
  is, so every field of a stored leg may be absent (\<open>None\<close> is \<open>undefined\<close>).\<close>

record Leg =
  origin :: "string option"
  destination :: "string option"
  dateFrom :: "string option"
  dateTo :: "string option"

record LowestRecord =
  points :: rat
  outboundDate :: string
  returnDate :: string
  seenAt :: string
  totalTaxes :: rat
  taxesCurrency :: string
  isDirect :: bool

record CashRecord =
  aud :: rat
  cashOutboundDate :: string
  cashReturnDate :: string
  cashSeenAt :: string
  cashIsDirect :: "bool option"

record NormalizedFlight =
  Date :: string
  cabin :: string
  MileageCost :: rat
  RemainingSeats :: rat
  IsDirect :: bool
  Airlines :: string
  TaxesCurrency :: string
  TotalTaxes :: rat

datatype Source = Awards | Cash

datatype AvailType = Rewards | Any

text \<open>\<open>interface Monitor\<close>. An optional field is an option; \<open>delete monitor.x\<close> makes it
  \<open>None\<close>. A \<open>Record<string, T>\<close> is a map from keys to \<open>T\<close>.\<close>

record Monitor =
  idM :: string
  label :: string
  cabins :: "string list option"
  source :: "Source option"
  availType :: "AvailType option"
  outbound :: "Leg option"
  return :: "Leg option"
  createdAt :: string
  lastChecked :: "string option"
  currentCombined :: "(string \<rightharpoonup> LowestRecord) option"
  lowestCombined :: "(string \<rightharpoonup> LowestRecord) option"
  knownSlots :: "string list option"
  lastOutbound :: "NormalizedFlight list option"
  lastReturn :: "NormalizedFlight list option"
  currentCash :: "(string \<rightharpoonup> CashRecord) option"
  lowestCash :: "(string \<rightharpoonup> CashRecord) option"
  cashPending :: "bool option"
  cashRequestedAt :: "string option"

text \<open>One line of an alert. The source renders each line as one string (with an emoji
  and \<open>toLocaleString\<close> number formatting); the model keeps the values the string is
  built from, in the order they appear in it.\<close>

datatype AlertLine =
    NewSlot string string string rat
      \<comment> \<open>direction (outbound / return), cabin label, date, mileage cost\<close>
  | NewLowest string rat "rat option" string string
      \<comment> \<open>cabin label, combined points, previous points, outbound date, return date\<close>
  | NewLowestCash string rat "rat option" string string
      \<comment> \<open>cabin label, fare, previous fare, outbound date, return date\<close>

record PendingAlert =
  monitorId :: string
  monitorLabel :: string
  messages :: "AlertLine list"
  alertCreatedAt :: string

record CashRequest =
  reqMonitorId :: string
  reqLabel :: string
  reqOutbound :: "Leg option"
  reqReturn :: "Leg option"
  reqCabins :: "string list option"
  requestedAt :: "string option"

text \<open>An entry of the cash-result document; \<open>prices\<close> is the JSON object as the list of
  its entries, in the order \<open>Object.entries\<close> gives them.\<close>

record CashResult =
  resMonitorId :: string
  checkedAt :: "string option"
  prices :: "(string \<times> CashRecord) list option"

text \<open>The four JSON documents. \<open>None\<close> is a document that is missing or does not parse.\<close>

record Files =
  monitorsFile :: "Monitor list option"
  alertsFile :: "PendingAlert list option"
  cashRequestsFile :: "CashRequest list option"
  cashResultsFile :: "CashResult list option"

section \<open>Cabin codes\<close>

definition toUpperChar :: "char \<Rightarrow> char" where
  "toUpperChar c =
     (if (97::nat) \<le> of_char c \<and> of_char c \<le> (122::nat)
      then char_of (of_char c - (32::nat)) else c)"

definition toUpperCase :: "string \<Rightarrow> string" where
  "toUpperCase s = map toUpperChar s"

definition CABIN_CODES :: "(string \<times> string) list" where
  "CABIN_CODES = [(''business'', ''J''), (''premium'', ''W''), (''economy'', ''Y''), (''first'', ''F'')]"

definition CODE_LABELS :: "(string \<times> string) list" where
  "CODE_LABELS = [(''J'', ''Business''), (''W'', ''Prem Eco''), (''Y'', ''Economy''), (''F'', ''First'')]"

text \<open>The code tables are object literals, so a lookup also finds the properties every
  object inherits from \<open>Object.prototype\<close>. Their values are functions, and the
  prototype itself for \<open>__proto__\<close>, none of them \<open>undefined\<close> or \<open>null\<close>. The engine uses
  what it looks up as a property key and inside template strings, that is through its
  conversion to a string, and compares it only with the result of the same lookup; the
  table below therefore gives each inherited property by that string, as Node prints it.\<close>

definition OBJECT_PROTOTYPE :: "(string \<times> string) list" where
  "OBJECT_PROTOTYPE =
     [(''constructor'', ''function Object() { [native code] }''),
      (''__defineGetter__'', ''function __defineGetter__() { [native code] }''),
      (''__defineSetter__'', ''function __defineSetter__() { [native code] }''),
      (''hasOwnProperty'', ''function hasOwnProperty() { [native code] }''),
      (''__lookupGetter__'', ''function __lookupGetter__() { [native code] }''),
      (''__lookupSetter__'', ''function __lookupSetter__() { [native code] }''),
      (''isPrototypeOf'', ''function isPrototypeOf() { [native code] }''),
      (''propertyIsEnumerable'', ''function propertyIsEnumerable() { [native code] }''),
      (''toString'', ''function toString() { [native code] }''),
      (''valueOf'', ''function valueOf() { [native code] }''),
      (''__proto__'', ''[object Object]''),
      (''toLocaleString'', ''function toLocaleString() { [native code] }'')]"

text \<open>\<open>table[k]\<close> for a table that is an object literal: its own property, else the
  inherited one, else \<open>undefined\<close> (\<open>None\<close>).\<close>

definition property :: "(string \<times> string) list \<Rightarrow> string \<Rightarrow> string option" where
  "property table k = (case map_of table k of Some v \<Rightarrow> Some v | None \<Rightarrow> map_of OBJECT_PROTOTYPE k)"

text \<open>\<open>CABIN_CODES[c] ?? c.toUpperCase()\<close>\<close>

definition cabinCode :: "string \<Rightarrow> string" where
  "cabinCode c = (case property CABIN_CODES c of Some code \<Rightarrow> code | None \<Rightarrow> toUpperCase c)"

text \<open>\<open>CODE_LABELS[code] ?? code\<close>\<close>

definition codeLabel :: "string \<Rightarrow> string" where
  "codeLabel code = (case property CODE_LABELS code of Some l \<Rightarrow> l | None \<Rightarrow> code)"

section \<open>Reading a raw availability record\<close>

text \<open>A raw record of the award-search response, an object of the parsed JSON body whose
  fields have whatever values the body gave them; a key the record does not have gives
  \<open>JUndefined\<close>. The fields of a cabin are read under keys computed from the cabin code
  and the mode's suffix. \<open>Date\<close> is a string: the sort of \<open>normalizeFlights\<close> calls its
  method \<open>localeCompare\<close>, and on a record whose date is not a string it depends on the
  steps of the engine's sorting algorithm whether that call throws.\<close>

record RawRecord =
  rawDate :: string
  field :: "string \<Rightarrow> jsval"

definition truthy :: "jsval \<Rightarrow> bool" where
  "truthy v = (case v of JUndefined \<Rightarrow> False | JNull \<Rightarrow> False | JBool b \<Rightarrow> b
                 | JNum n \<Rightarrow> n \<noteq> Num 0 \<and> n \<noteq> NaN | JStr s \<Rightarrow> s \<noteq> [])"

text \<open>\<open>a || b\<close>\<close>

definition orElse :: "jsval \<Rightarrow> jsval \<Rightarrow> jsval" where
  "orElse a b = (if truthy a then a else b)"

definition isWhite :: "char \<Rightarrow> bool" where
  "isWhite c = (c \<in> set [CHR 0x09, CHR 0x0A, CHR 0x0B, CHR 0x0C, CHR 0x0D, CHR '' ''])"

definition isDigit :: "char \<Rightarrow> bool" where
  "isDigit c = ((48::nat) \<le> of_char c \<and> of_char c \<le> (57::nat))"

definition digitsVal :: "string \<Rightarrow> nat" where
  "digitsVal ds = foldl (\<lambda>a c. 10 * a + (of_char c - 48)) 0 ds"

text \<open>An optional sign in front of the rest of the string.\<close>

definition splitSign :: "string \<Rightarrow> bool \<times> string" where
  "splitSign s =
     (case s of
        [] \<Rightarrow> (False, s)
      | c # r \<Rightarrow> if c = CHR ''-'' then (True, r) else if c = CHR ''+'' then (False, r) else (False, s))"

text \<open>The exponent part \<open>e\<close>/\<open>E\<close>, sign, digits, at the head of a string: its value and
  what follows it; 0 and the string itself when the string does not start with one.\<close>

definition exponentPart :: "string \<Rightarrow> int \<times> string" where
  "exponentPart s =
     (case s of
        [] \<Rightarrow> (0, s)
      | c # r \<Rightarrow>
          if c = CHR ''e'' \<or> c = CHR ''E''
          then (let (neg, d) = splitSign r; ds = takeWhile isDigit d
                in if ds = [] then (0, s)
                   else (if neg then - int (digitsVal ds) else int (digitsVal ds), dropWhile isDigit d))
          else (0, s))"

text \<open>The longest prefix of a string that is a decimal literal (\<open>StrDecimalLiteral\<close>: a
  sign, then \<open>Infinity\<close> or digits with an optional fraction and exponent): its value and
  the rest of the string, \<open>None\<close> when there is no such prefix. A literal too large for a
  double keeps its rational value.\<close>

definition decimalLiteral :: "string \<Rightarrow> (jsnum \<times> string) option" where
  "decimalLiteral s =
     (let (neg, u) = splitSign s
      in if take 8 u = ''Infinity'' then Some (if neg then NegInfinity else Infinity, drop 8 u)
         else
          (let ip = takeWhile isDigit u;
               r1 = dropWhile isDigit u;
               hasDot = (case r1 of [] \<Rightarrow> False | c # _ \<Rightarrow> c = CHR ''.'');
               fp = (if hasDot then takeWhile isDigit (tl r1) else []);
               r2 = (if hasDot then dropWhile isDigit (tl r1) else r1);
               (ex, r3) = exponentPart r2;
               m = of_nat (digitsVal ip) + of_nat (digitsVal fp) / 10 ^ length fp;
               v = (if 0 \<le> ex then m * 10 ^ nat ex else m / 10 ^ nat (- ex))
           in if ip = [] \<and> fp = [] then None else Some (Num (if neg then - v else v), r3)))"

text \<open>\<open>parseFloat\<close> on a string: leading white space is skipped and the longest prefix
  that is a decimal literal is read.\<close>

definition strParseFloat :: "string \<Rightarrow> jsnum" where
  "strParseFloat s = (case decimalLiteral (dropWhile isWhite s) of None \<Rightarrow> NaN | Some (v, rest) \<Rightarrow> v)"

text \<open>\<open>parseFloat(v as string)\<close>: the argument is converted to a string first, so a
  number reads back as itself and \<open>undefined\<close>, \<open>null\<close> and booleans give \<open>NaN\<close>.\<close>

definition parseFloat :: "jsval \<Rightarrow> jsnum" where
  "parseFloat v = (case v of JNum n \<Rightarrow> n | JStr s \<Rightarrow> strParseFloat s | _ \<Rightarrow> NaN)"

text \<open>The value of a digit in a hexadecimal, octal or binary literal.\<close>

definition digitValue :: "char \<Rightarrow> nat option" where
  "digitValue c =
     (let n = (of_char c :: nat)
      in if 48 \<le> n \<and> n \<le> 57 then Some (n - 48)
         else if 97 \<le> n \<and> n \<le> 102 then Some (n - 87)
         else if 65 \<le> n \<and> n \<le> 70 then Some (n - 55)
         else None)"

definition radixVal :: "nat \<Rightarrow> string \<Rightarrow> nat option" where
  "radixVal b ds =
     (if ds \<noteq> [] \<and> list_all (\<lambda>c. case digitValue c of Some d \<Rightarrow> d < b | None \<Rightarrow> False) ds
      then Some (foldl (\<lambda>a c. case digitValue c of Some d \<Rightarrow> b * a + d | None \<Rightarrow> a) 0 ds)
      else None)"

text \<open>\<open>NonDecimalIntegerLiteral\<close>: \<open>0x\<close>, \<open>0o\<close> or \<open>0b\<close> and digits of that base, unsigned.\<close>

definition nonDecimalLiteral :: "string \<Rightarrow> nat option" where
  "nonDecimalLiteral s =
     (case s of
        c0 # c1 # ds \<Rightarrow>
          if c0 \<noteq> CHR ''0'' then None
          else if c1 = CHR ''x'' \<or> c1 = CHR ''X'' then radixVal 16 ds
          else if c1 = CHR ''o'' \<or> c1 = CHR ''O'' then radixVal 8 ds
          else if c1 = CHR ''b'' \<or> c1 = CHR ''B'' then radixVal 2 ds
          else None
      | _ \<Rightarrow> None)"

definition trim :: "string \<Rightarrow> string" where
  "trim s = rev (dropWhile isWhite (rev (dropWhile isWhite s)))"

text \<open>The conversion of a string to a number (\<open>StringToNumber\<close>): the whole string, white
  space at its ends apart, has to be a literal; the empty string is 0.\<close>

definition strToNumber :: "string \<Rightarrow> jsnum" where
  "strToNumber s =
     (let t = trim s;
          other = (case nonDecimalLiteral t of Some n \<Rightarrow> Num (of_nat n) | None \<Rightarrow> NaN)
      in if t = [] then Num 0
         else (case decimalLiteral t of
                 None \<Rightarrow> other
               | Some (v, rest) \<Rightarrow> if rest = [] then v else other))"

text \<open>\<open>ToNumber\<close>, the conversion that \<open>>\<close> and \<open>/\<close> apply to an operand.\<close>

definition toNumber :: "jsval \<Rightarrow> jsnum" where
  "toNumber v =
     (case v of
        JUndefined \<Rightarrow> NaN
      | JNull \<Rightarrow> Num 0
      | JBool b \<Rightarrow> Num (if b then 1 else 0)
      | JNum n \<Rightarrow> n
      | JStr s \<Rightarrow> strToNumber s)"

text \<open>\<open>x > 0\<close>\<close>

definition positive :: "jsval \<Rightarrow> bool" where
  "positive x = (case toNumber x of Num r \<Rightarrow> 0 < r | Infinity \<Rightarrow> True | _ \<Rightarrow> False)"

text \<open>\<open>a === b\<close>: the same type and the same value, and \<open>NaN\<close> equals nothing.\<close>

definition strictEquals :: "jsval \<Rightarrow> jsval \<Rightarrow> bool" where
  "strictEquals a b = (a = b \<and> a \<noteq> JNum NaN)"

text \<open>\<open>x / d\<close> for a positive number \<open>d\<close>\<close>

definition dividedBy :: "jsnum \<Rightarrow> rat \<Rightarrow> jsnum" where
  "dividedBy n d = (case n of Num r \<Rightarrow> Num (r / d) | _ \<Rightarrow> n)"

text \<open>\<open>parseFloat(v as string) || (v as number) || 0\<close>. The casts are erased when the
  program runs: a field whose \<open>parseFloat\<close> is 0 or \<open>NaN\<close> is kept as it is when it is
  truthy.\<close>

definition mileageOf :: "jsval \<Rightarrow> jsval" where
  "mileageOf v = orElse (orElse (JNum (parseFloat v)) v) (JNum (Num 0))"

section \<open>normalizeFlights\<close>

text \<open>The object \<open>normalizeFlights\<close> pushes for an available cabin. Its fields hold what
  the reads of the record left in them: the declaration \<open>NormalizedFlight\<close> says
  \<open>number\<close> and \<open>string\<close>, the record decides. \<open>objCabin\<close> is the cabin code.\<close>

record FlightObject =
  objDate :: string
  objCabin :: string
  objMileageCost :: jsval
  objRemainingSeats :: jsval
  objIsDirect :: bool
  objAirlines :: jsval
  objTaxesCurrency :: jsval
  objTotalTaxes :: jsnum

text \<open>The body of the inner loop: the entry pushed for one record and one cabin code, if
  any.\<close>

definition normalizeCabin :: "RawRecord \<Rightarrow> string \<Rightarrow> string \<Rightarrow> FlightObject list" where
  "normalizeCabin f code sfx =
     (let available = field f (code @ ''Available'' @ sfx);
          mileage = mileageOf (field f (code @ ''MileageCost'' @ sfx))
      in if truthy available \<and> positive mileage
         then (let directMileage = orElse (field f (code @ ''DirectMileageCost'' @ sfx)) (JNum (Num 0))
               in [\<lparr> objDate = rawDate f,
                     objCabin = code,
                     objMileageCost = mileage,
                     objRemainingSeats = orElse (field f (code @ ''RemainingSeats'' @ sfx)) (JNum (Num 0)),
                     objIsDirect = (positive directMileage \<and> strictEquals directMileage mileage),
                     objAirlines = orElse (field f (code @ ''Airlines'' @ sfx)) (JStr []),
                     objTaxesCurrency = field f ''TaxesCurrency'',
                     objTotalTaxes =
                       dividedBy (toNumber (orElse (field f (code @ ''TotalTaxes'' @ sfx)) (JNum (Num 0)))) 100 \<rparr>])
         else [])"

definition suffixOf :: "AvailType \<Rightarrow> string" where
  "suffixOf mode = (if mode = Any then ''Raw'' else [])"

text \<open>\<open>Array.prototype.sort\<close> with a comparator: the sort is stable, and for a consistent
  comparator, which a collation is, every stable sort gives the list of this insertion
  sort. \<open>compare a b\<close> is negative, zero or positive.\<close>

fun insortBy :: "('a \<Rightarrow> 'a \<Rightarrow> int) \<Rightarrow> 'a \<Rightarrow> 'a list \<Rightarrow> 'a list" where
  "insortBy compare x [] = [x]"
| "insortBy compare x (y # ys) = (if compare x y \<le> 0 then x # y # ys else y # insortBy compare x ys)"

definition sortBy :: "('a \<Rightarrow> 'a \<Rightarrow> int) \<Rightarrow> 'a list \<Rightarrow> 'a list" where
  "sortBy compare xs = foldr (insortBy compare) xs []"

text \<open>\<open>normalizeFlights\<close>; \<open>collate a b\<close> is \<open>a.localeCompare(b)\<close>.\<close>

definition normalizeFlights :: "(string \<Rightarrow> string \<Rightarrow> int) \<Rightarrow> RawRecord list \<Rightarrow> string list \<Rightarrow> AvailType \<Rightarrow>
    FlightObject list" where
  "normalizeFlights collate raw cabinList mode =
     (let codes = map cabinCode cabinList;
          sfx = suffixOf mode
      in sortBy (\<lambda>a b. collate (objDate a) (objDate b))
           (concat (map (\<lambda>f. concat (map (\<lambda>code. normalizeCabin f code sfx) codes)) raw)))"

section \<open>Persistence\<close>

text \<open>\<open>readMonitors\<close>: a document that is missing or does not parse reads as no monitors.\<close>

definition readMonitors :: "Files \<Rightarrow> Monitor list" where
  "readMonitors files = (case monitorsFile files of None \<Rightarrow> [] | Some ms \<Rightarrow> ms)"

definition writeMonitors :: "Monitor list \<Rightarrow> Files \<Rightarrow> Files" where
  "writeMonitors ms files = files\<lparr>monitorsFile := Some ms\<rparr>"

text \<open>\<open>data.monitors.find(m => m.id === id)\<close>, and the write through the reference it
  returns: the handlers mutate the first monitor of that id in place.\<close>

definition findMonitor :: "string \<Rightarrow> Monitor list \<Rightarrow> Monitor option" where
  "findMonitor i ms = find (\<lambda>m. idM m = i) ms"

fun replaceFirst :: "string \<Rightarrow> Monitor \<Rightarrow> Monitor list \<Rightarrow> Monitor list" where
  "replaceFirst i m' [] = []"
| "replaceFirst i m' (m # ms) = (if idM m = i then m' # ms else m # replaceFirst i m' ms)"

text \<open>\<open>appendAlert\<close>, on the alert document; the time stamp is the clock's reading.\<close>

definition appendAlert :: "string \<Rightarrow> string \<Rightarrow> AlertLine list \<Rightarrow> string \<Rightarrow>
    PendingAlert list option \<Rightarrow> PendingAlert list option" where
  "appendAlert mid lbl msgs now doc =
     Some ((case doc of None \<Rightarrow> [] | Some pending \<Rightarrow> pending)
           @ [\<lparr> monitorId = mid, monitorLabel = lbl, messages = msgs, alertCreatedAt = now \<rparr>])"

text \<open>\<open>writeCashRequest\<close>, on the request document: the entry of this monitor is dropped
  and the new one pushed at the end.\<close>

definition writeCashRequest :: "Monitor \<Rightarrow> CashRequest list option \<Rightarrow> CashRequest list option" where
  "writeCashRequest monitor doc =
     Some (filter (\<lambda>r. reqMonitorId r \<noteq> idM monitor)
             (case doc of None \<Rightarrow> [] | Some requests \<Rightarrow> requests)
           @ [\<lparr> reqMonitorId = idM monitor,
                reqLabel = label monitor,
                reqOutbound = outbound monitor,
                reqReturn = return monitor,
                reqCabins = cabins monitor,
                requestedAt = cashRequestedAt monitor \<rparr>])"

section \<open>fetchLeg and refreshMonitor\<close>

text \<open>What a failing call throws: the search request failed (time-out abort, a status
  that is not a success, an unreadable key or body), or a property of \<open>undefined\<close> was
  read.\<close>

datatype error = FetchFailed | TypeError

text \<open>What \<open>fetchLeg\<close> calls outside the program: the award-search service, which gives
  the records of its answer for a leg or fails, and the collation of the runtime,
  \<open>localeCompare a b\<close> for \<open>a.localeCompare(b)\<close>.\<close>

record Services =
  awardSearch :: "Leg \<Rightarrow> error + RawRecord list"
  localeCompare :: "string \<Rightarrow> string \<Rightarrow> int"

text \<open>\<open>fetchLeg\<close> returns the objects of \<open>normalizeFlights\<close> under their declared type
  \<open>NormalizedFlight[]\<close>, and \<open>refreshMonitor\<close> computes with them at that type. On an
  object whose fields have their declared types \<open>asDeclared\<close> changes nothing. A cost, a
  seat count or a tax that is not a finite number, and a list of airlines or a currency
  that is not a string, are outside the declared type; the model carries the number the
  value converts to (0 for one that converts to none) and the empty string.\<close>

definition finite0 :: "jsnum \<Rightarrow> rat" where
  "finite0 n = (case n of Num r \<Rightarrow> r | _ \<Rightarrow> 0)"

definition asDeclared :: "FlightObject \<Rightarrow> NormalizedFlight" where
  "asDeclared e =
     \<lparr> Date = objDate e,
       cabin = objCabin e,
       MileageCost = finite0 (toNumber (objMileageCost e)),
       RemainingSeats = finite0 (toNumber (objRemainingSeats e)),
       IsDirect = objIsDirect e,
       Airlines = (case objAirlines e of JStr s \<Rightarrow> s | _ \<Rightarrow> []),
       TaxesCurrency = (case objTaxesCurrency e of JStr s \<Rightarrow> s | _ \<Rightarrow> []),
       TotalTaxes = finite0 (objTotalTaxes e) \<rparr>"

text \<open>\<open>fetchLeg\<close>. The parameter \<open>search\<close> stands for the services above.\<close>

definition fetchLeg :: "Services \<Rightarrow> Leg option \<Rightarrow> string list option \<Rightarrow>
    AvailType \<Rightarrow> error + NormalizedFlight list" where
  "fetchLeg search leg cabinList mode =
     (case leg of
        None \<Rightarrow> Inl TypeError
      | Some l \<Rightarrow>
          (case awardSearch search l of
             Inl e \<Rightarrow> Inl e
           | Inr raw \<Rightarrow>
               (case cabinList of
                  None \<Rightarrow> Inl TypeError
                | Some cs \<Rightarrow> Inr (map asDeclared (normalizeFlights (localeCompare search) raw cs mode)))))"

text \<open>\<open>new Set(xs)\<close>, as the list of its elements in insertion order.\<close>

definition newSet :: "string list \<Rightarrow> string list" where
  "newSet xs = foldl (\<lambda>s x. if x \<in> set s then s else s @ [x]) [] xs"

definition slotKey :: "string \<Rightarrow> NormalizedFlight \<Rightarrow> string" where
  "slotKey dir f = Date f @ ''|'' @ cabin f @ ''|'' @ dir"

text \<open>\<open>fl.filter(f => f.cabin === code).sort((a, b) => a.MileageCost - b.MileageCost)[0]\<close>\<close>

definition best :: "NormalizedFlight list \<Rightarrow> string \<Rightarrow> NormalizedFlight option" where
  "best fl code =
     (case sort_key MileageCost (filter (\<lambda>f. cabin f = code) fl) of
        [] \<Rightarrow> None
      | b # _ \<Rightarrow> Some b)"

definition combinedRecord :: "NormalizedFlight \<Rightarrow> NormalizedFlight \<Rightarrow> string \<Rightarrow> LowestRecord" where
  "combinedRecord bestOut bestRet now =
     \<lparr> points = MileageCost bestOut + MileageCost bestRet,
       outboundDate = Date bestOut,
       returnDate = Date bestRet,
       seenAt = now,
       totalTaxes = TotalTaxes bestOut + TotalTaxes bestRet,
       taxesCurrency = (if TaxesCurrency bestOut \<noteq> [] then TaxesCurrency bestOut
                        else if TaxesCurrency bestRet \<noteq> [] then TaxesCurrency bestRet
                        else ''AUD''),
       isDirect = (IsDirect bestOut \<and> IsDirect bestRet) \<rparr>"

text \<open>The body of the loop over the cabin codes, on the current records, the lowest
  records and the alert lines.\<close>

type_synonym tracking =
  "(string \<rightharpoonup> LowestRecord) \<times> (string \<rightharpoonup> LowestRecord) \<times> AlertLine list"

definition trackCabin :: "NormalizedFlight list \<Rightarrow> NormalizedFlight list \<Rightarrow> string \<Rightarrow>
    tracking \<Rightarrow> string \<Rightarrow> tracking" where
  "trackCabin outb ret now st code =
     (case st of (currentC, lowestC, alerts) \<Rightarrow>
        (case best outb code of
           None \<Rightarrow> st
         | Some bestOut \<Rightarrow>
             (case best ret code of
                None \<Rightarrow> st
              | Some bestRet \<Rightarrow>
                  (let rec = combinedRecord bestOut bestRet now;
                       prev = lowestC code
                   in if (case prev of None \<Rightarrow> True | Some p \<Rightarrow> points rec < points p)
                      then (currentC(code \<mapsto> rec), lowestC(code \<mapsto> rec),
                            alerts @ [NewLowest (codeLabel code) (points rec) (map_option points prev)
                                        (Date bestOut) (Date bestRet)])
                      else (currentC(code \<mapsto> rec), lowestC, alerts)))))"

text \<open>\<open>refreshMonitor\<close>. The two legs are fetched first; a failure of either rejects the
  whole call before anything of the monitor is written. The clock is the parameter
  \<open>now\<close>, one reading for the call.\<close>

definition refreshMonitor :: "Services \<Rightarrow> string \<Rightarrow> Monitor \<Rightarrow>
    error + (Monitor \<times> AlertLine list)" where
  "refreshMonitor search now monitor =
     (let mode = (case availType monitor of None \<Rightarrow> Rewards | Some a \<Rightarrow> a)
      in case fetchLeg search (outbound monitor) (cabins monitor) mode of
           Inl e \<Rightarrow> Inl e
         | Inr outb \<Rightarrow>
        (case fetchLeg search (return monitor) (cabins monitor) mode of
           Inl e \<Rightarrow> Inl e
         | Inr ret \<Rightarrow>
        (case cabins monitor of
           None \<Rightarrow> Inl TypeError
         | Some cs \<Rightarrow>
            (let known = newSet (case knownSlots monitor of None \<Rightarrow> [] | Some ks \<Rightarrow> ks);
                 newOut = filter (\<lambda>f. slotKey ''out'' f \<notin> set known) outb;
                 newRet = filter (\<lambda>f. slotKey ''ret'' f \<notin> set known) ret;
                 newSlots = map (slotKey ''out'') newOut @ map (slotKey ''ret'') newRet;
                 slotAlerts =
                   map (\<lambda>f. NewSlot ''outbound'' (codeLabel (cabin f)) (Date f) (MileageCost f)) newOut
                   @ map (\<lambda>f. NewSlot ''return'' (codeLabel (cabin f)) (Date f) (MileageCost f)) newRet;
                 codes = map cabinCode cs;
                 lowest0 = (case lowestCombined monitor of None \<Rightarrow> Map.empty | Some l \<Rightarrow> l)
             in case foldl (trackCabin outb ret now) (Map.empty, lowest0, slotAlerts) codes of
                  (currentC, lowestC, alerts) \<Rightarrow>
                    Inr (monitor\<lparr> lastChecked := Some now,
                                  lastOutbound := Some outb,
                                  lastReturn := Some ret,
                                  currentCombined := Some currentC,
                                  lowestCombined := Some lowestC,
                                  knownSlots := Some (known @ newSlots) \<rparr>,
                         alerts)))))"

section \<open>refreshAll and the on-demand refresh\<close>

text \<open>What a refresh cycle carries besides the monitors: the documents it writes as it
  goes, the lines of \<open>console.error\<close>, and the flag \<open>changed\<close>.\<close>

record CycleState =
  docs :: Files
  errorLog :: "(string \<times> error) list"
  changed :: bool

text \<open>The body of the loop of \<open>refreshAll\<close> for one monitor.\<close>

definition refreshOne :: "Services \<Rightarrow> string \<Rightarrow> Monitor \<Rightarrow> CycleState \<Rightarrow>
    Monitor \<times> CycleState" where
  "refreshOne search now monitor st =
     (if source monitor = Some Cash
      then (if cashPending monitor \<noteq> Some True
            then (let monitor' = monitor\<lparr> cashPending := Some True, cashRequestedAt := Some now \<rparr>
                  in (monitor',
                      st\<lparr> docs := (docs st)\<lparr> cashRequestsFile :=
                                      writeCashRequest monitor' (cashRequestsFile (docs st)) \<rparr>,
                          changed := True \<rparr>))
            else (monitor, st))
      else (case refreshMonitor search now monitor of
              Inr (monitor', alerts) \<Rightarrow>
                (monitor',
                 st\<lparr> docs := (if alerts \<noteq> []
                               then (docs st)\<lparr> alertsFile :=
                                      appendAlert (idM monitor') (label monitor') alerts now
                                        (alertsFile (docs st)) \<rparr>
                               else docs st),
                     changed := True \<rparr>)
            | Inl e \<Rightarrow> (monitor, st\<lparr> errorLog := errorLog st @ [(label monitor, e)] \<rparr>)))"

fun refreshLoop :: "Services \<Rightarrow> string \<Rightarrow> Monitor list \<Rightarrow> CycleState \<Rightarrow>
    Monitor list \<times> CycleState" where
  "refreshLoop search now [] st = ([], st)"
| "refreshLoop search now (m # ms) st =
     (case refreshOne search now m st of
        (m', st') \<Rightarrow>
          (case refreshLoop search now ms st' of
             (ms', st'') \<Rightarrow> (m' # ms', st'')))"

text \<open>\<open>refreshAll\<close>: the documents and the error log after the cycle.\<close>

definition refreshAll :: "Services \<Rightarrow> string \<Rightarrow> Files \<Rightarrow>
    Files \<times> (string \<times> error) list" where
  "refreshAll search now files =
     (case refreshLoop search now (readMonitors files)
             \<lparr> docs = files, errorLog = [], changed = False \<rparr> of
        (ms', st) \<Rightarrow>
          ((if changed st then writeMonitors ms' (docs st) else docs st), errorLog st))"

text \<open>A response is its status code and the documents after the request.\<close>

type_synonym response = "nat \<times> Files"

text \<open>\<open>POST /api/monitors/:id/refresh\<close>. A rejected \<open>refreshMonitor\<close> is caught by the
  handler of the server, which answers 500.\<close>

definition postRefresh :: "Services \<Rightarrow> string \<Rightarrow> string \<Rightarrow> Files \<Rightarrow> response" where
  "postRefresh search now i files =
     (case findMonitor i (readMonitors files) of
        None \<Rightarrow> (404, files)
      | Some monitor \<Rightarrow>
          if source monitor = Some Cash
          then (let monitor' = monitor\<lparr> cashPending := Some True, cashRequestedAt := Some now \<rparr>;
                    files' = files\<lparr> cashRequestsFile := writeCashRequest monitor' (cashRequestsFile files) \<rparr>
                in (200, writeMonitors (replaceFirst i monitor' (readMonitors files)) files'))
          else (case refreshMonitor search now monitor of
                  Inl e \<Rightarrow> (500, files)
                | Inr (monitor', alerts) \<Rightarrow>
                    (200, writeMonitors (replaceFirst i monitor' (readMonitors files))
                            (if alerts \<noteq> []
                             then files\<lparr> alertsFile :=
                                    appendAlert (idM monitor') (label monitor') alerts now (alertsFile files) \<rparr>
                             else files))))"

section \<open>processCashResults\<close>

definition CASH_CABIN_CODES :: "(string \<times> string) list" where
  "CASH_CABIN_CODES = [(''business'', ''J''), (''premium'', ''W''), (''economy'', ''Y''), (''first'', ''F'')]"

definition CASH_CABIN_LABELS :: "(string \<times> string) list" where
  "CASH_CABIN_LABELS = [(''J'', ''Business''), (''W'', ''Prem Eco''), (''Y'', ''Economy''), (''F'', ''First'')]"

definition cashCabinCode :: "string \<Rightarrow> string" where
  "cashCabinCode k = (case property CASH_CABIN_CODES k of Some code \<Rightarrow> code | None \<Rightarrow> toUpperCase k)"

definition cashCabinLabel :: "string \<Rightarrow> string" where
  "cashCabinLabel code = (case property CASH_CABIN_LABELS code of Some l \<Rightarrow> l | None \<Rightarrow> code)"

text \<open>\<open>obj[k] = v\<close> on the entries of an object: a key that is there keeps its place, a
  new key goes to the end.\<close>

fun assign :: "string \<Rightarrow> 'v \<Rightarrow> (string \<times> 'v) list \<Rightarrow> (string \<times> 'v) list" where
  "assign k v [] = [(k, v)]"
| "assign k v (p # ps) = (if fst p = k then (k, v) # ps else p # assign k v ps)"

text \<open>The price map with its keys turned into cabin codes.\<close>

definition normalizePrices :: "(string \<times> CashRecord) list \<Rightarrow> (string \<times> CashRecord) list" where
  "normalizePrices rawPrices = foldl (\<lambda>ps (k, v). assign (cashCabinCode k) v ps) [] rawPrices"

text \<open>\<open>Object.entries\<close> of an object whose properties were created in the order of the
  list: the keys that are array indices come first, in ascending order, the other keys
  follow in the order of their creation.\<close>

definition isArrayIndex :: "string \<Rightarrow> bool" where
  "isArrayIndex k =
     (k \<noteq> [] \<and> list_all isDigit k \<and> (k = ''0'' \<or> hd k \<noteq> CHR ''0'') \<and> digitsVal k < 4294967295)"

definition objectEntries :: "(string \<times> 'v) list \<Rightarrow> (string \<times> 'v) list" where
  "objectEntries ps =
     sort_key (\<lambda>p. digitsVal (fst p)) (filter (\<lambda>p. isArrayIndex (fst p)) ps)
     @ filter (\<lambda>p. \<not> isArrayIndex (fst p)) ps"

type_synonym cashTracking =
  "(string \<rightharpoonup> CashRecord) \<times> (string \<rightharpoonup> CashRecord) \<times> AlertLine list"

text \<open>The body of the loop over the entries of the price map.\<close>

definition trackCash :: "cashTracking \<Rightarrow> string \<times> CashRecord \<Rightarrow> cashTracking" where
  "trackCash st entry =
     (case st of (currentC, lowestC, alerts) \<Rightarrow>
      (case entry of (code, price) \<Rightarrow>
        (let prev = lowestC code
         in if (case prev of None \<Rightarrow> True | Some p \<Rightarrow> aud price < aud p)
            then (currentC(code \<mapsto> price), lowestC(code \<mapsto> price),
                  alerts @ [NewLowestCash (cashCabinLabel code) (aud price) (map_option aud prev)
                              (cashOutboundDate price) (cashReturnDate price)])
            else (currentC(code \<mapsto> price), lowestC, alerts))))"

text \<open>What the loop of \<open>processCashResults\<close> does with one result on the monitor it
  belongs to: the monitor afterwards and the alert lines.\<close>

definition applyCashResult :: "string \<Rightarrow> Monitor \<Rightarrow> CashResult \<Rightarrow> Monitor \<times> AlertLine list" where
  "applyCashResult now monitor result =
     (let checked = (case checkedAt result of None \<Rightarrow> now | Some t \<Rightarrow> if t = [] then now else t);
          current0 = (case currentCash monitor of None \<Rightarrow> Map.empty | Some c \<Rightarrow> c);
          lowest0 = (case lowestCash monitor of None \<Rightarrow> Map.empty | Some l \<Rightarrow> l);
          rawPrices = (case prices result of None \<Rightarrow> [] | Some ps \<Rightarrow> ps)
      in case foldl trackCash (current0, lowest0, []) (objectEntries (normalizePrices rawPrices)) of
           (currentC, lowestC, alerts) \<Rightarrow>
             (monitor\<lparr> cashPending := Some False,
                       lastChecked := Some checked,
                       currentCash := Some currentC,
                       lowestCash := Some lowestC \<rparr>,
              alerts))"

text \<open>The loop over the results, on the monitors, the alert document and the flag
  \<open>changed\<close>.\<close>

definition cashStep :: "string \<Rightarrow> Monitor list \<times> PendingAlert list option \<times> bool \<Rightarrow> CashResult \<Rightarrow>
    Monitor list \<times> PendingAlert list option \<times> bool" where
  "cashStep now st result =
     (case st of (monitors, alertDoc, chg) \<Rightarrow>
        (case findMonitor (resMonitorId result) monitors of
           None \<Rightarrow> st
         | Some monitor \<Rightarrow>
             if source monitor \<noteq> Some Cash then st
             else (case applyCashResult now monitor result of
                     (monitor', alerts) \<Rightarrow>
                       (replaceFirst (resMonitorId result) monitor' monitors,
                        (if alerts \<noteq> []
                         then appendAlert (idM monitor') (label monitor') alerts now alertDoc
                         else alertDoc),
                        True))))"

definition processCashResults :: "string \<Rightarrow> Files \<Rightarrow> Files" where
  "processCashResults now files =
     (case cashResultsFile files of
        None \<Rightarrow> files
      | Some results \<Rightarrow>
          if results = [] then files
          else (case foldl (cashStep now) (readMonitors files, alertsFile files, False) results of
                  (monitors, alertDoc, chg) \<Rightarrow>
                    if chg
                    then (writeMonitors monitors (files\<lparr> alertsFile := alertDoc \<rparr>))
                           \<lparr> cashResultsFile := Some [] \<rparr>
                    else files\<lparr> alertsFile := alertDoc \<rparr>))"

section \<open>Creating and editing a monitor\<close>

definition MAX_DATE_RANGE_DAYS_SERVER :: rat where
  "MAX_DATE_RANGE_DAYS_SERVER = 5"

text \<open>\<open>validateLegDateRange\<close>. The parameter \<open>getTime\<close> is \<open>new Date(s).getTime()\<close>, the
  milliseconds of a date string, \<open>None\<close> for \<open>NaN\<close>; every comparison with \<open>NaN\<close> is
  false. An absent and an empty date are both falsy.\<close>

definition validateLegDateRange :: "(string \<Rightarrow> rat option) \<Rightarrow> Leg option \<Rightarrow> string \<Rightarrow> string option" where
  "validateLegDateRange getTime leg lbl =
     (case leg of
        None \<Rightarrow> None
      | Some l \<Rightarrow>
          (case dateFrom l of
             None \<Rightarrow> None
           | Some df \<Rightarrow>
               (case dateTo l of
                  None \<Rightarrow> None
                | Some dt \<Rightarrow>
                    if df = [] \<or> dt = [] then None
                    else (case getTime dt of
                            None \<Rightarrow> None
                          | Some t \<Rightarrow>
                              (case getTime df of
                                 None \<Rightarrow> None
                               | Some f \<Rightarrow>
                                   (let days = (t - f) / 86400000
                                    in if days < 0 then Some (lbl @ '': end date must be after start date'')
                                       else if days > MAX_DATE_RANGE_DAYS_SERVER
                                       then Some (lbl @ '': date range cannot exceed 5 days'')
                                       else None))))))"

text \<open>The parsed body of a create or edit request.\<close>

record Body =
  bodyLabel :: string
  bodyCabins :: "string list option"
  bodySource :: "Source option"
  bodyAvailType :: "AvailType option"
  bodyOutbound :: "Leg option"
  bodyReturn :: "Leg option"

text \<open>\<open>validateLegDateRange(body.outbound, 'Outbound') ?? validateLegDateRange(body.return, 'Return')\<close>\<close>

definition rangeErr :: "(string \<Rightarrow> rat option) \<Rightarrow> Body \<Rightarrow> string option" where
  "rangeErr getTime body =
     (case validateLegDateRange getTime (bodyOutbound body) ''Outbound'' of
        Some e \<Rightarrow> Some e
      | None \<Rightarrow> validateLegDateRange getTime (bodyReturn body) ''Return'')"


definition legDiffers :: "Leg \<Rightarrow> Leg \<Rightarrow> bool" where
  "legDiffers a b =
     (origin a \<noteq> origin b \<or> destination a \<noteq> destination b \<or>
      dateFrom a \<noteq> dateFrom b \<or> dateTo a \<noteq> dateTo b)"

text \<open>The expression \<open>coreChanged\<close> of \<open>PUT /api/monitors/:id\<close>, evaluated left to right
  with the short cut of \<open>||\<close>: reading a field of a leg that is \<open>undefined\<close> throws; the
  last disjunct sorts \<open>body.cabins\<close> in place, so the result carries the cabin list of the
  body as the evaluation leaves it.\<close>

definition coreChanged :: "Body \<Rightarrow> Monitor \<Rightarrow> error + (bool \<times> string list option)" where
  "coreChanged body monitor =
     (case bodyOutbound body of
        None \<Rightarrow> Inl TypeError
      | Some bo \<Rightarrow>
     (case outbound monitor of
        None \<Rightarrow> Inl TypeError
      | Some mo \<Rightarrow>
          if legDiffers bo mo then Inr (True, bodyCabins body)
          else
     (case bodyReturn body of
        None \<Rightarrow> Inl TypeError
      | Some br \<Rightarrow>
     (case return monitor of
        None \<Rightarrow> Inl TypeError
      | Some mr \<Rightarrow>
          if legDiffers br mr then Inr (True, bodyCabins body)
          else if (case bodyAvailType body of None \<Rightarrow> Rewards | Some a \<Rightarrow> a)
                  \<noteq> (case availType monitor of None \<Rightarrow> Rewards | Some a \<Rightarrow> a)
          then Inr (True, bodyCabins body)
          else Inr (sort (case bodyCabins body of None \<Rightarrow> [] | Some cs \<Rightarrow> cs)
                      \<noteq> sort (case cabins monitor of None \<Rightarrow> [] | Some cs \<Rightarrow> cs),
                    map_option sort (bodyCabins body))))))"

text \<open>The ten \<open>delete\<close> statements.\<close>

definition clearTracking :: "Monitor \<Rightarrow> Monitor" where
  "clearTracking monitor =
     monitor\<lparr> currentCombined := None, lowestCombined := None, knownSlots := None,
               lastOutbound := None, lastReturn := None, lastChecked := None,
               currentCash := None, lowestCash := None,
               cashPending := None, cashRequestedAt := None \<rparr>"

text \<open>\<open>PUT /api/monitors/:id\<close>\<close>

definition putMonitor :: "(string \<Rightarrow> rat option) \<Rightarrow> string \<Rightarrow> Files \<Rightarrow> Body \<Rightarrow> response" where
  "putMonitor getTime i files body =
     (case rangeErr getTime body of
        Some e \<Rightarrow> (400, files)
      | None \<Rightarrow>
          (case findMonitor i (readMonitors files) of
             None \<Rightarrow> (404, files)
           | Some monitor \<Rightarrow>
               (case coreChanged body monitor of
                  Inl e \<Rightarrow> (500, files)
                | Inr (chg, bodyCabins') \<Rightarrow>
                    (let edited =
                           monitor\<lparr> label := bodyLabel body,
                                     cabins := bodyCabins',
                                     source := Some (case bodySource body of None \<Rightarrow> Awards | Some s \<Rightarrow> s),
                                     availType := Some (case bodyAvailType body of None \<Rightarrow> Rewards | Some a \<Rightarrow> a),
                                     outbound := bodyOutbound body,
                                     return := bodyReturn body \<rparr>
                     in (200, writeMonitors
                                (replaceFirst i (if chg then clearTracking edited else edited)
                                   (readMonitors files))
                                files)))))"

section \<open>Notions used in the statements\<close>

text \<open>A code has no lower-case letter, or is the text of an inherited property; so the
  label of a code determines the code.\<close>

definition noLower :: "string \<Rightarrow> bool" where
  "noLower s = (\<forall>c \<in> set s. \<not> ((97::nat) \<le> of_char c \<and> of_char c \<le> (122::nat)))"

definition codeShaped :: "string \<Rightarrow> bool" where
  "codeShaped s = (noLower s \<or> s \<in> set (map snd OBJECT_PROTOTYPE))"

text \<open>Names for what one pass of the loop does to one cabin: the record the two legs
  give, whether it improves on the stored one, the stored record and the alert line
  afterwards.\<close>

definition pairOf :: "NormalizedFlight list \<Rightarrow> NormalizedFlight list \<Rightarrow> string \<Rightarrow> string \<Rightarrow> LowestRecord option" where
  "pairOf outb ret now code =
     (case best outb code of
        None \<Rightarrow> None
      | Some bo \<Rightarrow> (case best ret code of None \<Rightarrow> None | Some br \<Rightarrow> Some (combinedRecord bo br now)))"

definition improves :: "LowestRecord option \<Rightarrow> LowestRecord \<Rightarrow> bool" where
  "improves prev r = (case prev of None \<Rightarrow> True | Some p \<Rightarrow> points r < points p)"

definition lowestLine :: "string \<Rightarrow> LowestRecord option \<Rightarrow> LowestRecord \<Rightarrow> AlertLine" where
  "lowestLine code prev r =
     NewLowest (codeLabel code) (points r) (map_option points prev) (outboundDate r) (returnDate r)"

definition isLowestLine :: "string \<Rightarrow> AlertLine \<Rightarrow> bool" where
  "isLowestLine code a = (case a of NewLowest l _ _ _ _ \<Rightarrow> l = codeLabel code | _ \<Rightarrow> False)"

definition lowAfter :: "LowestRecord option \<Rightarrow> LowestRecord option \<Rightarrow> LowestRecord option" where
  "lowAfter prev new = (case new of None \<Rightarrow> prev | Some r \<Rightarrow> if improves prev r then Some r else prev)"

definition lineAfter :: "string \<Rightarrow> LowestRecord option \<Rightarrow> LowestRecord option \<Rightarrow> AlertLine list" where
  "lineAfter code prev new =
     (case new of None \<Rightarrow> [] | Some r \<Rightarrow> if improves prev r then [lowestLine code prev r] else [])"

text \<open>Reading the optional fields of a monitor the way the source does
  (\<open>monitor.availType ?? 'rewards'\<close>, \<open>monitor.lowestCombined ?? {}\<close>,
  \<open>monitor.knownSlots ?? []\<close>).\<close>

definition modeOf :: "Monitor \<Rightarrow> AvailType" where
  "modeOf m = (case availType m of None \<Rightarrow> Rewards | Some a \<Rightarrow> a)"

definition currentCombinedAt :: "Monitor \<Rightarrow> string \<Rightarrow> LowestRecord option" where
  "currentCombinedAt m code = (case currentCombined m of None \<Rightarrow> None | Some c \<Rightarrow> c code)"

definition lowestCombinedAt :: "Monitor \<Rightarrow> string \<Rightarrow> LowestRecord option" where
  "lowestCombinedAt m code = (case lowestCombined m of None \<Rightarrow> None | Some l \<Rightarrow> l code)"

definition knownSlotsOf :: "Monitor \<Rightarrow> string set" where
  "knownSlotsOf m = (case knownSlots m of None \<Rightarrow> {} | Some ks \<Rightarrow> set ks)"

text \<open>Names for what the loop over a price map does to one cabin, as for the awards.\<close>

definition cashImproves :: "CashRecord option \<Rightarrow> CashRecord \<Rightarrow> bool" where
  "cashImproves prev price = (case prev of None \<Rightarrow> True | Some p \<Rightarrow> aud price < aud p)"

definition cashLowAfter :: "CashRecord option \<Rightarrow> CashRecord \<Rightarrow> CashRecord option" where
  "cashLowAfter prev price = (if cashImproves prev price then Some price else prev)"

definition cashLine :: "string \<Rightarrow> CashRecord option \<Rightarrow> CashRecord \<Rightarrow> AlertLine" where
  "cashLine code prev price =
     NewLowestCash (cashCabinLabel code) (aud price) (map_option aud prev)
       (cashOutboundDate price) (cashReturnDate price)"

definition cashLineAfter :: "string \<Rightarrow> CashRecord option \<Rightarrow> CashRecord \<Rightarrow> AlertLine list" where
  "cashLineAfter code prev price = (if cashImproves prev price then [cashLine code prev price] else [])"

definition isLowestCashLine :: "string \<Rightarrow> AlertLine \<Rightarrow> bool" where
  "isLowestCashLine code a = (case a of NewLowestCash l _ _ _ _ \<Rightarrow> l = cashCabinLabel code | _ \<Rightarrow> False)"

definition cashKeys :: "(string \<times> CashRecord) list \<Rightarrow> bool" where
  "cashKeys ps = (distinct (map fst ps) \<and> (\<forall>k \<in> set (map fst ps). codeShaped k))"

text \<open>Reading the optional maps of a cash monitor (\<open>monitor.lowestCash || {}\<close>), and the
  price map of a result with its keys as cabin codes.\<close>

definition currentCashAt :: "Monitor \<Rightarrow> string \<Rightarrow> CashRecord option" where
  "currentCashAt m code = (case currentCash m of None \<Rightarrow> None | Some c \<Rightarrow> c code)"

definition lowestCashAt :: "Monitor \<Rightarrow> string \<Rightarrow> CashRecord option" where
  "lowestCashAt m code = (case lowestCash m of None \<Rightarrow> None | Some l \<Rightarrow> l code)"

definition pricesOf :: "CashResult \<Rightarrow> (string \<times> CashRecord) list" where
  "pricesOf result = objectEntries (normalizePrices (case prices result of None \<Rightarrow> [] | Some ps \<Rightarrow> ps))"

text \<open>The mode and the cabin list of a request body and of a monitor as the handler reads
  them (\<open>body.availType ?? 'rewards'\<close>, \<open>body.cabins || []\<close>), and the ten tracking
  fields of a monitor.\<close>

definition bodyMode :: "Body \<Rightarrow> AvailType" where
  "bodyMode body = (case bodyAvailType body of None \<Rightarrow> Rewards | Some a \<Rightarrow> a)"

definition bodyCabinList :: "Body \<Rightarrow> string list" where
  "bodyCabinList body = (case bodyCabins body of None \<Rightarrow> [] | Some cs \<Rightarrow> cs)"

definition cabinListOf :: "Monitor \<Rightarrow> string list" where
  "cabinListOf m = (case cabins m of None \<Rightarrow> [] | Some cs \<Rightarrow> cs)"

definition trackingFields :: "Monitor \<Rightarrow>
    (string \<rightharpoonup> LowestRecord) option \<times> (string \<rightharpoonup> LowestRecord) option \<times> string list option \<times>
    NormalizedFlight list option \<times> NormalizedFlight list option \<times> string option \<times>
    (string \<rightharpoonup> CashRecord) option \<times> (string \<rightharpoonup> CashRecord) option \<times> bool option \<times> string option" where
  "trackingFields m =
     (currentCombined m, lowestCombined m, knownSlots m, lastOutbound m, lastReturn m, lastChecked m,
      currentCash m, lowestCash m, cashPending m, cashRequestedAt m)"


text \<open>A result belongs to a known cash monitor: the first monitor of its id is a cash
  monitor.\<close>

definition matchesCash :: "Monitor list \<Rightarrow> CashResult \<Rightarrow> bool" where
  "matchesCash ms r =
     (case findMonitor (resMonitorId r) ms of None \<Rightarrow> False | Some m \<Rightarrow> source m = Some Cash)"

section \<open>Sample data\<close>

text \<open>Two records of a business-class search, the later date first.\<close>

definition sampleRaw :: "RawRecord list" where
  "sampleRaw =
     [\<lparr> rawDate = ''2026-06-03'',
         field = (\<lambda>k. if k = ''TaxesCurrency'' then JStr ''AUD''
                     else if k = ''JAvailable'' then JBool True
                     else if k = ''JMileageCost'' then JStr ''293000''
                     else if k = ''JDirectMileageCost'' then JNum (Num 293000)
                     else if k = ''JTotalTaxes'' then JNum (Num 56000)
                     else JUndefined) \<rparr>,
      \<lparr> rawDate = ''2026-06-02'',
         field = (\<lambda>k. if k = ''TaxesCurrency'' then JStr ''AUD''
                     else if k = ''JAvailable'' then JBool True
                     else if k = ''JMileageCost'' then JStr ''280000''
                     else if k = ''JDirectMileageCost'' then JNum (Num 0)
                     else JUndefined) \<rparr>]"






text \<open>A monitor of the business cabin, and a search service that answers the outbound
  leg with the two records above and the return leg with one record.\<close>

definition sampleOut :: "NormalizedFlight list" where
  "sampleOut =
     [\<lparr> Date = ''2026-06-02'', cabin = ''J'', MileageCost = 280000, RemainingSeats = 0,
         IsDirect = False, Airlines = [], TaxesCurrency = ''AUD'', TotalTaxes = 0 \<rparr>,
      \<lparr> Date = ''2026-06-03'', cabin = ''J'', MileageCost = 293000, RemainingSeats = 0,
         IsDirect = True, Airlines = [], TaxesCurrency = ''AUD'', TotalTaxes = 560 \<rparr>]"

definition sampleRawRet :: "RawRecord list" where
  "sampleRawRet =
     [\<lparr> rawDate = ''2026-06-20'',
         field = (\<lambda>k. if k = ''TaxesCurrency'' then JStr ''AUD''
                     else if k = ''JAvailable'' then JBool True
                     else if k = ''JMileageCost'' then JStr ''293000''
                     else if k = ''JDirectMileageCost'' then JNum (Num 293000)
                     else JUndefined) \<rparr>]"

definition sampleRet :: "NormalizedFlight list" where
  "sampleRet =
     [\<lparr> Date = ''2026-06-20'', cabin = ''J'', MileageCost = 293000, RemainingSeats = 0,
         IsDirect = True, Airlines = [], TaxesCurrency = ''AUD'', TotalTaxes = 0 \<rparr>]"

text \<open>On ISO dates every collation is the order of the character codes.\<close>

definition isoCompare :: "string \<Rightarrow> string \<Rightarrow> int" where
  "isoCompare a b = (if a < b then - 1 else if a = b then 0 else 1)"

definition sampleSearch :: Services where
  "sampleSearch =
     \<lparr> awardSearch = (\<lambda>l. if origin l = Some ''SYD'' then Inr sampleRaw else Inr sampleRawRet),
       localeCompare = isoCompare \<rparr>"

definition sampleMonitor :: Monitor where
  "sampleMonitor =
     \<lparr> idM = ''m1'', label = ''Boston'', cabins = Some [''business''],
       source = Some Awards, availType = Some Rewards,
       outbound = Some \<lparr> origin = Some ''SYD'', destination = Some ''BOS'',
                         dateFrom = Some ''2026-06-01'', dateTo = Some ''2026-06-05'' \<rparr>,
       return = Some \<lparr> origin = Some ''BOS'', destination = Some ''SYD'',
                       dateFrom = Some ''2026-06-18'', dateTo = Some ''2026-06-22'' \<rparr>,
       createdAt = ''2026-05-01T00:00:00.000Z'', lastChecked = None,
       currentCombined = None, lowestCombined = None, knownSlots = None,
       lastOutbound = None, lastReturn = None,
       currentCash = None, lowestCash = None, cashPending = None, cashRequestedAt = None \<rparr>"

text \<open>A cash monitor whose lowest business fare is AUD 4200.\<close>

definition sampleFare :: CashRecord where
  "sampleFare = \<lparr> aud = 4200, cashOutboundDate = ''2026-06-02'', cashReturnDate = ''2026-06-20'',
                  cashSeenAt = ''2026-05-02T09:00:00.000Z'', cashIsDirect = Some True \<rparr>"

definition sampleCashMonitor :: Monitor where
  "sampleCashMonitor =
     sampleMonitor\<lparr> idM := ''c1'', source := Some Cash,
                    currentCash := Some [''J'' \<mapsto> sampleFare],
                    lowestCash := Some [''J'' \<mapsto> sampleFare],
                    cashPending := Some True,
                    cashRequestedAt := Some ''2026-05-02T08:00:00.000Z'' \<rparr>"

text \<open>A result that prices the business cabin at the stored lowest fare again.\<close>

definition sampleResult :: CashResult where
  "sampleResult =
     \<lparr> resMonitorId = ''c1'', checkedAt = Some ''2026-05-03T09:00:00.000Z'',
       prices = Some [(''business'', sampleFare\<lparr> cashSeenAt := ''2026-05-03T09:00:00.000Z'' \<rparr>)] \<rparr>"




text \<open>The clock of a few dates, a monitor with tracking state, and the documents that hold
  it.\<close>

definition sampleGetTime :: "string \<Rightarrow> rat option" where
  "sampleGetTime = map_of
     [(''2026-06-01'', 1780272000000), (''2026-06-03'', 1780444800000),
      (''2026-06-05'', 1780617600000), (''2026-06-18'', 1781740800000),
      (''2026-06-22'', 1782086400000), (''2026-06-30'', 1782777600000)]"

definition sampleTracked :: Monitor where
  "sampleTracked =
     sampleMonitor\<lparr> cabins := Some [''premium'', ''business''],
                    lastChecked := Some ''2026-05-02T00:00:00.000Z'',
                    knownSlots := Some [''2026-06-02|J|out'', ''2026-06-20|J|ret''] \<rparr>"

definition sampleFiles :: Files where
  "sampleFiles = \<lparr> monitorsFile = Some [sampleTracked], alertsFile = None,
                   cashRequestsFile = None, cashResultsFile = None \<rparr>"

text \<open>Three bodies for the monitor: a shorter outbound window; a new label with the cabins
  in another order; the same cabins with one of them twice.\<close>

definition sampleBody :: Body where
  "sampleBody =
     \<lparr> bodyLabel = ''Boston trip'', bodyCabins = Some [''business'', ''premium''],
       bodySource = None, bodyAvailType = None,
       bodyOutbound = outbound sampleTracked, bodyReturn = return sampleTracked \<rparr>"

definition shorterBody :: Body where
  "shorterBody =
     sampleBody\<lparr> bodyOutbound := Some \<lparr> origin = Some ''SYD'', destination = Some ''BOS'',
                                         dateFrom = Some ''2026-06-01'', dateTo = Some ''2026-06-03'' \<rparr> \<rparr>"

definition duplicateBody :: Body where
  "duplicateBody = sampleBody\<lparr> bodyCabins := Some [''business'', ''premium'', ''premium''] \<rparr>"




text \<open>A search service whose answer for the outbound leg fails, and the documents of an
  awards monitor followed by a cash monitor with no request pending.\<close>

definition failingSearch :: Services where
  "failingSearch =
     \<lparr> awardSearch = (\<lambda>l. if origin l = Some ''SYD'' then Inl FetchFailed else Inr sampleRawRet),
       localeCompare = isoCompare \<rparr>"

definition idleCashMonitor :: Monitor where
  "idleCashMonitor = sampleCashMonitor\<lparr> cashPending := None, cashRequestedAt := None \<rparr>"

definition twoFiles :: Files where
  "twoFiles = \<lparr> monitorsFile = Some [sampleMonitor, idleCashMonitor], alertsFile = None,
                cashRequestsFile = None, cashResultsFile = None \<rparr>"

text \<open>The documents of the cash monitor with a result for it, and with a result for a
  monitor that is not there.\<close>

definition resultFiles :: Files where
  "resultFiles = \<lparr> monitorsFile = Some [sampleCashMonitor], alertsFile = None,
                   cashRequestsFile = None, cashResultsFile = Some [sampleResult] \<rparr>"


definition strayResult :: CashResult where
  "strayResult = sampleResult\<lparr> resMonitorId := ''zz'' \<rparr>"

definition strayFiles :: Files where
  "strayFiles = resultFiles\<lparr> cashResultsFile := Some [strayResult] \<rparr>"

text \<open>The documents of the cash monitor with its request pending since 08:00.\<close>

definition pendingFiles :: Files where
  "pendingFiles =
     \<lparr> monitorsFile = Some [sampleCashMonitor], alertsFile = None,
       cashRequestsFile = writeCashRequest sampleCashMonitor None,
       cashResultsFile = None \<rparr>"

section \<open>Properties of normalizeFlights\<close>


















lemma strParseFloat_sample:
  "strParseFloat ''293000'' = Num 293000" "strParseFloat ''280000'' = Num 280000"
  "strParseFloat ''310000'' = Num 310000" "strParseFloat ''0x10'' = Num 0"
  by (simp_all add: strParseFloat_def decimalLiteral_def splitSign_def isWhite_def
      isDigit_def digitsVal_def exponentPart_def Let_def)

lemma strToNumber_sample:
  "strToNumber ''0x10'' = Num 16" "strToNumber ''56000'' = Num 56000"
  "strToNumber ''280000'' = Num 280000"
  by (simp_all add: strToNumber_def trim_def nonDecimalLiteral_def radixVal_def digitValue_def
      decimalLiteral_def splitSign_def isWhite_def isDigit_def digitsVal_def exponentPart_def Let_def)

lemma mileageOf_sample:
  "mileageOf (JStr ''293000'') = JNum (Num 293000)" "mileageOf (JStr ''280000'') = JNum (Num 280000)"
  "mileageOf (JStr ''310000'') = JNum (Num 310000)" "mileageOf (JStr ''0x10'') = JStr ''0x10''"
  "mileageOf (JNum (Num 0)) = JNum (Num 0)" "mileageOf (JNum (Num 150000)) = JNum (Num 150000)"
  "mileageOf JUndefined = JNum (Num 0)"
  by (simp_all add: mileageOf_def parseFloat_def strParseFloat_sample orElse_def truthy_def)

lemma positive_sample:
  "positive (JNum (Num 293000))" "positive (JNum (Num 280000))" "positive (JNum (Num 310000))"
  "positive (JNum (Num 150000))" "positive (JStr ''0x10'')" "\<not> positive (JNum (Num 0))"
  "positive (JStr ''280000'')"
  by (simp_all add: positive_def toNumber_def strToNumber_sample)

lemma cabinCode_sample: "cabinCode ''business'' = ''J''" "cabinCode ''suite'' = ''SUITE''"
  "cabinCode ''constructor'' = ''function Object() { [native code] }''"
  by (simp_all add: cabinCode_def property_def CABIN_CODES_def OBJECT_PROTOTYPE_def
      toUpperCase_def toUpperChar_def char_of_eq_iff take_bit_eq_mod)

lemmas reading = normalizeCabin_def Let_def truthy_def mileageOf_sample positive_sample orElse_def
  strictEquals_def dividedBy_def toNumber_def strToNumber_sample




lemma isoCompare_sample:
  "\<not> isoCompare ''2026-06-03'' ''2026-06-01'' \<le> 0" "\<not> isoCompare ''2026-06-03'' ''2026-06-02'' \<le> 0"
  "isoCompare ''2026-06-02'' ''2026-06-02'' \<le> 0" "isoCompare ''2026-06-02'' ''2026-06-03'' \<le> 0"
  by (simp_all add: isoCompare_def)





section \<open>Properties of the cabin codes and of the cheapest flight\<close>

lemma toUpperChar_noLower:
  "\<not> ((97::nat) \<le> of_char (toUpperChar c) \<and> of_char (toUpperChar c) \<le> (122::nat))"
proof (cases "(97::nat) \<le> of_char c \<and> of_char c \<le> (122::nat)")
  case True
  define n :: nat where "n = of_char c"
  from True have n: "97 \<le> n" "n \<le> 122" by (simp_all add: n_def)
  then have "(n - 32) mod 256 = n - 32" by (intro mod_less) arith
  then have "(of_char (toUpperChar c) :: nat) = n - 32"
    using True by (simp add: toUpperChar_def n_def)
  with n show ?thesis by arith
next
  case False
  then have "toUpperChar c = c"
    unfolding toUpperChar_def by (rule if_not_P)
  with False show ?thesis by simp
qed

lemma noLower_toUpperCase: "noLower (toUpperCase s)"
  using toUpperChar_noLower by (auto simp: noLower_def toUpperCase_def)

lemma noLower_codes: "noLower ''J''" "noLower ''W''" "noLower ''Y''" "noLower ''F''"
  by (simp_all add: noLower_def)

lemma map_of_avoids:
  assumes "\<forall>k \<in> set (map fst table). \<not> P k" and "P c"
  shows "map_of table c = None"
proof -
  from assms have "c \<notin> fst ` set table" by auto
  then show ?thesis by (simp add: map_of_eq_None_iff)
qed

lemma inherited_keys_lower: "\<forall>k \<in> set (map fst OBJECT_PROTOTYPE). \<not> noLower k"
  by (simp add: OBJECT_PROTOTYPE_def noLower_def)

lemma inherited_keys_bracket: "\<forall>k \<in> set (map fst OBJECT_PROTOTYPE). \<not> CHR '']'' \<in> set k"
  by (simp add: OBJECT_PROTOTYPE_def)

lemma inherited_texts_lower: "\<forall>t \<in> set (map snd OBJECT_PROTOTYPE). \<not> noLower t"
  by (simp add: OBJECT_PROTOTYPE_def noLower_def)

lemma inherited_texts_bracket: "\<forall>t \<in> set (map snd OBJECT_PROTOTYPE). CHR '']'' \<in> set t"
  by (simp add: OBJECT_PROTOTYPE_def)

lemma property_noLower: "noLower c \<Longrightarrow> property table c = map_of table c"
  using map_of_avoids [OF inherited_keys_lower, of c]
  by (simp add: property_def split: option.splits)

lemma codeShaped_cabinCode: "codeShaped (cabinCode c)"
proof (cases "map_of CABIN_CODES c")
  case None
  show ?thesis
  proof (cases "map_of OBJECT_PROTOTYPE c")
    case n: None
    with None show ?thesis by (simp add: cabinCode_def property_def codeShaped_def noLower_toUpperCase)
  next
    case (Some t)
    then have "t \<in> set (map snd OBJECT_PROTOTYPE)"
      using map_of_SomeD [of OBJECT_PROTOTYPE c t] by force
    with None Some show ?thesis by (simp add: cabinCode_def property_def codeShaped_def)
  qed
next
  case (Some code)
  then have "code = ''J'' \<or> code = ''W'' \<or> code = ''Y'' \<or> code = ''F''"
    by (simp add: CABIN_CODES_def split: if_splits)
  with Some show ?thesis
    using noLower_codes by (auto simp: cabinCode_def property_def codeShaped_def)
qed

lemma codeLabel_cases:
  "noLower c \<Longrightarrow>
   codeLabel c = (if c = ''J'' then ''Business'' else if c = ''W'' then ''Prem Eco''
     else if c = ''Y'' then ''Economy'' else if c = ''F'' then ''First'' else c)"
  by (simp add: codeLabel_def property_noLower CODE_LABELS_def)

lemma codeLabel_known:
  "c = ''J'' \<or> c = ''W'' \<or> c = ''Y'' \<or> c = ''F'' \<Longrightarrow>
   \<not> noLower (codeLabel c) \<and> \<not> CHR '']'' \<in> set (codeLabel c)"
  using noLower_codes by (auto simp: codeLabel_cases noLower_def)

lemma codeLabel_other:
  "noLower c \<Longrightarrow> \<not> (c = ''J'' \<or> c = ''W'' \<or> c = ''Y'' \<or> c = ''F'') \<Longrightarrow> codeLabel c = c"
  by (simp add: codeLabel_cases)

lemma codeLabel_known_inj:
  "c1 = ''J'' \<or> c1 = ''W'' \<or> c1 = ''Y'' \<or> c1 = ''F'' \<Longrightarrow>
   c2 = ''J'' \<or> c2 = ''W'' \<or> c2 = ''Y'' \<or> c2 = ''F'' \<Longrightarrow>
   codeLabel c1 = codeLabel c2 \<Longrightarrow> c1 = c2"
  using noLower_codes by (auto simp: codeLabel_cases)

lemma codeLabel_text:
  assumes "t \<in> set (map snd OBJECT_PROTOTYPE)"
  shows "codeLabel t = t"
proof -
  from assms inherited_texts_bracket have br: "CHR '']'' \<in> set t" by blast
  have "\<forall>k \<in> set (map fst CODE_LABELS). \<not> CHR '']'' \<in> set k"
    by (simp add: CODE_LABELS_def)
  from map_of_avoids [OF this, of t] br have "map_of CODE_LABELS t = None" by simp
  moreover from map_of_avoids [OF inherited_keys_bracket, of t] br
  have "map_of OBJECT_PROTOTYPE t = None" by simp
  ultimately show ?thesis by (simp add: codeLabel_def property_def)
qed

lemma codeLabel_inj_noLower:
  assumes "noLower c1" and "noLower c2" and eq: "codeLabel c1 = codeLabel c2"
  shows "c1 = c2"
proof (cases "c1 = ''J'' \<or> c1 = ''W'' \<or> c1 = ''Y'' \<or> c1 = ''F''")
  case k1: True
  show ?thesis
  proof (cases "c2 = ''J'' \<or> c2 = ''W'' \<or> c2 = ''Y'' \<or> c2 = ''F''")
    case True
    from k1 True eq show ?thesis by (rule codeLabel_known_inj)
  next
    case False
    with assms(2) have "codeLabel c2 = c2" by (rule codeLabel_other)
    with eq assms(2) codeLabel_known [OF k1] show ?thesis by simp
  qed
next
  case n1: False
  with assms(1) have l1: "codeLabel c1 = c1" by (rule codeLabel_other)
  show ?thesis
  proof (cases "c2 = ''J'' \<or> c2 = ''W'' \<or> c2 = ''Y'' \<or> c2 = ''F''")
    case True
    with eq assms(1) l1 codeLabel_known [OF True] show ?thesis by simp
  next
    case False
    with assms(2) have "codeLabel c2 = c2" by (rule codeLabel_other)
    with eq l1 show ?thesis by simp
  qed
qed

lemma codeLabel_noLower_text:
  assumes n: "noLower c1" and t: "c2 \<in> set (map snd OBJECT_PROTOTYPE)"
  shows "codeLabel c1 \<noteq> codeLabel c2"
proof (cases "c1 = ''J'' \<or> c1 = ''W'' \<or> c1 = ''Y'' \<or> c1 = ''F''")
  case True
  from codeLabel_known [OF True] have "\<not> CHR '']'' \<in> set (codeLabel c1)" by simp
  moreover from t inherited_texts_bracket have "CHR '']'' \<in> set c2" by blast
  ultimately show ?thesis using codeLabel_text [OF t] by auto
next
  case False
  with n have "codeLabel c1 = c1" by (rule codeLabel_other)
  moreover from t inherited_texts_lower have "\<not> noLower c2" by blast
  ultimately show ?thesis using n codeLabel_text [OF t] by auto
qed

lemma codeLabel_inj:
  assumes "codeShaped c1" and "codeShaped c2" and eq: "codeLabel c1 = codeLabel c2"
  shows "c1 = c2"
proof (cases "noLower c1")
  case n1: True
  show ?thesis
  proof (cases "noLower c2")
    case True
    from n1 True eq show ?thesis by (rule codeLabel_inj_noLower)
  next
    case False
    with assms(2) have "c2 \<in> set (map snd OBJECT_PROTOTYPE)" by (simp add: codeShaped_def)
    from codeLabel_noLower_text [OF n1 this] eq show ?thesis by simp
  qed
next
  case f1: False
  with assms(1) have t1: "c1 \<in> set (map snd OBJECT_PROTOTYPE)" by (simp add: codeShaped_def)
  show ?thesis
  proof (cases "noLower c2")
    case True
    from codeLabel_noLower_text [OF True t1] eq show ?thesis by simp
  next
    case False
    with assms(2) have "c2 \<in> set (map snd OBJECT_PROTOTYPE)" by (simp add: codeShaped_def)
    with t1 eq show ?thesis by (simp add: codeLabel_text)
  qed
qed





section \<open>The loop over the cabin codes\<close>

lemma trackCabin_alt:
  "trackCabin outb ret now (c, l, a) code =
     (case pairOf outb ret now code of
        None \<Rightarrow> (c, l, a)
      | Some r \<Rightarrow> (c(code \<mapsto> r), (l(code := lowAfter (l code) (Some r))), a @ lineAfter code (l code) (Some r)))"
  by (simp add: trackCabin_def pairOf_def improves_def lowestLine_def combinedRecord_def lowAfter_def lineAfter_def
      Let_def fun_upd_idem split: option.splits)

lemma improves_lowAfter: "\<not> improves (lowAfter prev (Some r)) r"
  by (simp add: improves_def lowAfter_def split: option.splits)

lemma lowAfter_idem: "lowAfter (lowAfter prev new) new = lowAfter prev new"
  by (cases new) (simp_all add: lowAfter_def improves_def split: option.splits)

lemma lineAfter_idem: "lineAfter code (lowAfter prev new) new = []"
  by (cases new) (simp_all add: lineAfter_def lowAfter_def improves_def split: option.splits)

lemma isLowestLine_lineAfter:
  "codeShaped code \<Longrightarrow> codeShaped x \<Longrightarrow>
   filter (isLowestLine code) (lineAfter x prev new) = (if code = x then lineAfter x prev new else [])"
  using codeLabel_inj [of code x]
  by (auto simp: lineAfter_def isLowestLine_def lowestLine_def split: option.splits)

lemma track_fold:
  assumes "\<forall>x \<in> set codes. codeShaped x"
    and "foldl (trackCabin outb ret now) (c0, l0, a0) codes = (c, l, a)"
  shows "(\<forall>code. c code = (if code \<in> set codes \<and> pairOf outb ret now code \<noteq> None
                            then pairOf outb ret now code else c0 code)) \<and>
         (\<forall>code. l code = (if code \<in> set codes then lowAfter (l0 code) (pairOf outb ret now code) else l0 code)) \<and>
         (\<forall>code. codeShaped code \<longrightarrow>
            filter (isLowestLine code) a =
            filter (isLowestLine code) a0 @
              (if code \<in> set codes then lineAfter code (l0 code) (pairOf outb ret now code) else []))"
  using assms
proof (induction codes arbitrary: c l a rule: rev_induct)
  case Nil
  then show ?case by simp
next
  case (snoc x xs)
  obtain c1 l1 a1 where st: "foldl (trackCabin outb ret now) (c0, l0, a0) xs = (c1, l1, a1)"
    by (cases "foldl (trackCabin outb ret now) (c0, l0, a0) xs") auto
  from snoc.prems have nl: "\<forall>y \<in> set xs. codeShaped y" and nx: "codeShaped x" by simp_all
  note ih = snoc.IH [OF nl st]
  from ih have c1: "\<And>code. c1 code = (if code \<in> set xs \<and> pairOf outb ret now code \<noteq> None
                            then pairOf outb ret now code else c0 code)"
    and l1: "\<And>code. l1 code = (if code \<in> set xs then lowAfter (l0 code) (pairOf outb ret now code) else l0 code)"
    and a1: "\<And>code. codeShaped code \<Longrightarrow> filter (isLowestLine code) a1 =
            filter (isLowestLine code) a0 @
              (if code \<in> set xs then lineAfter code (l0 code) (pairOf outb ret now code) else [])"
    by blast+
  from snoc.prems(2) st have step: "trackCabin outb ret now (c1, l1, a1) x = (c, l, a)" by simp
  show ?case
  proof (cases "pairOf outb ret now x")
    case None
    with step have eq: "c = c1" "l = l1" "a = a1" by (simp_all add: trackCabin_alt)
    show ?thesis
      using None c1 l1 a1 unfolding eq
      by (auto simp: lowAfter_def lineAfter_def)
  next
    case (Some r)
    with step have eq: "c = c1(x \<mapsto> r)" "l = l1(x := lowAfter (l1 x) (Some r))"
      "a = a1 @ lineAfter x (l1 x) (Some r)"
      by (simp_all add: trackCabin_alt)
    have lx: "lowAfter (l1 x) (Some r) = lowAfter (l0 x) (Some r)"
      using l1 [of x] Some lowAfter_idem [of "l0 x" "Some r"] by (simp split: if_splits)
    have ax: "lineAfter x (l1 x) (Some r) = (if x \<in> set xs then [] else lineAfter x (l0 x) (Some r))"
      using l1 [of x] Some lineAfter_idem [of x "l0 x" "Some r"] by (simp split: if_splits)
    have "\<forall>code. c code = (if code \<in> set (xs @ [x]) \<and> pairOf outb ret now code \<noteq> None
                            then pairOf outb ret now code else c0 code)"
      using c1 Some unfolding eq by auto
    moreover have "\<forall>code. l code = (if code \<in> set (xs @ [x]) then lowAfter (l0 code) (pairOf outb ret now code) else l0 code)"
      using l1 Some lx unfolding eq by auto
    moreover have "\<forall>code. codeShaped code \<longrightarrow>
            filter (isLowestLine code) a =
            filter (isLowestLine code) a0 @
              (if code \<in> set (xs @ [x]) then lineAfter code (l0 code) (pairOf outb ret now code) else [])"
    proof (intro allI impI)
      fix code assume nc: "codeShaped code"
      show "filter (isLowestLine code) a =
            filter (isLowestLine code) a0 @
              (if code \<in> set (xs @ [x]) then lineAfter code (l0 code) (pairOf outb ret now code) else [])"
        using a1 [OF nc] isLowestLine_lineAfter [OF nc nx, of "l1 x" "Some r"] ax Some
        unfolding eq by (auto split: if_splits)
    qed
    ultimately show ?thesis by blast
  qed
qed

section \<open>Properties of refreshMonitor\<close>

lemma set_newSet_aux: "set (foldl (\<lambda>s x. if x \<in> set s then s else s @ [x]) acc xs) = set acc \<union> set xs"
  by (induction xs arbitrary: acc) auto

lemma set_newSet: "set (newSet xs) = set xs"
  by (simp add: newSet_def set_newSet_aux)

lemma slotAlerts_not_lowest:
  "filter (isLowestLine code) (map (\<lambda>f. NewSlot d (g f) (h f) (k f)) fl) = []"
  by (induction fl) (simp_all add: isLowestLine_def)

lemma refreshMonitor_fails:
  "fetchLeg search (outbound m) (cabins m) (modeOf m) = Inl e \<Longrightarrow> refreshMonitor search now m = Inl e"
  "fetchLeg search (outbound m) (cabins m) (modeOf m) = Inr outb \<Longrightarrow>
   fetchLeg search (return m) (cabins m) (modeOf m) = Inl e \<Longrightarrow> refreshMonitor search now m = Inl e"
  by (simp_all add: refreshMonitor_def modeOf_def Let_def)

lemma refreshMonitor_succeeds:
  assumes "fetchLeg search (outbound m) (cabins m) (modeOf m) = Inr outb"
    and "fetchLeg search (return m) (cabins m) (modeOf m) = Inr ret"
    and "cabins m = Some cs"
  shows "\<exists>c l a m'.
           refreshMonitor search now m = Inr (m', a) \<and>
           foldl (trackCabin outb ret now)
             (Map.empty, (case lowestCombined m of None \<Rightarrow> Map.empty | Some l \<Rightarrow> l),
              map (\<lambda>f. NewSlot ''outbound'' (codeLabel (cabin f)) (Date f) (MileageCost f))
                 (filter (\<lambda>f. slotKey ''out'' f \<notin> knownSlotsOf m) outb)
              @ map (\<lambda>f. NewSlot ''return'' (codeLabel (cabin f)) (Date f) (MileageCost f))
                 (filter (\<lambda>f. slotKey ''ret'' f \<notin> knownSlotsOf m) ret))
             (map cabinCode cs) = (c, l, a) \<and>
           currentCombined m' = Some c \<and> lowestCombined m' = Some l \<and>
           knownSlotsOf m' = knownSlotsOf m \<union> slotKey ''out'' ` set outb \<union> slotKey ''ret'' ` set ret \<and>
           lastOutbound m' = Some outb \<and> lastReturn m' = Some ret \<and> lastChecked m' = Some now"
proof -
  let ?known = "newSet (case knownSlots m of None \<Rightarrow> [] | Some ks \<Rightarrow> ks)"
  have known: "set ?known = knownSlotsOf m"
    by (simp add: set_newSet knownSlotsOf_def split: option.splits)
  obtain c l a where f: "foldl (trackCabin outb ret now)
             (Map.empty, (case lowestCombined m of None \<Rightarrow> Map.empty | Some l \<Rightarrow> l),
              map (\<lambda>f. NewSlot ''outbound'' (codeLabel (cabin f)) (Date f) (MileageCost f))
                 (filter (\<lambda>f. slotKey ''out'' f \<notin> knownSlotsOf m) outb)
              @ map (\<lambda>f. NewSlot ''return'' (codeLabel (cabin f)) (Date f) (MileageCost f))
                 (filter (\<lambda>f. slotKey ''ret'' f \<notin> knownSlotsOf m) ret))
             (map cabinCode cs) = (c, l, a)"
    using prod_cases3 by blast
  from assms f show ?thesis
    by (auto simp: refreshMonitor_def modeOf_def [symmetric] Let_def known knownSlotsOf_def)
qed



lemma refreshMonitor_tracks:
  assumes "fetchLeg search (outbound m) (cabins m) (modeOf m) = Inr outb"
    and "fetchLeg search (return m) (cabins m) (modeOf m) = Inr ret"
    and "cabins m = Some cs"
  shows "\<exists>m' lines.
           refreshMonitor search now m = Inr (m', lines) \<and>
           knownSlotsOf m' = knownSlotsOf m \<union> slotKey ''out'' ` set outb \<union> slotKey ''ret'' ` set ret \<and>
           (\<forall>code \<in> set (map cabinCode cs).
              currentCombinedAt m' code = pairOf outb ret now code \<and>
              lowestCombinedAt m' code = lowAfter (lowestCombinedAt m code) (pairOf outb ret now code) \<and>
              filter (isLowestLine code) lines =
                lineAfter code (lowestCombinedAt m code) (pairOf outb ret now code))"
proof -
  from refreshMonitor_succeeds [OF assms, of now]
  obtain c l a m' where r: "refreshMonitor search now m = Inr (m', a)"
    and f: "foldl (trackCabin outb ret now)
             (Map.empty, (case lowestCombined m of None \<Rightarrow> Map.empty | Some l \<Rightarrow> l),
              map (\<lambda>f. NewSlot ''outbound'' (codeLabel (cabin f)) (Date f) (MileageCost f))
                 (filter (\<lambda>f. slotKey ''out'' f \<notin> knownSlotsOf m) outb)
              @ map (\<lambda>f. NewSlot ''return'' (codeLabel (cabin f)) (Date f) (MileageCost f))
                 (filter (\<lambda>f. slotKey ''ret'' f \<notin> knownSlotsOf m) ret))
             (map cabinCode cs) = (c, l, a)"
    and c: "currentCombined m' = Some c" and l: "lowestCombined m' = Some l"
    and k: "knownSlotsOf m' = knownSlotsOf m \<union> slotKey ''out'' ` set outb \<union> slotKey ''ret'' ` set ret"
    by blast
  have nl: "\<forall>x \<in> set (map cabinCode cs). codeShaped x"
    by (simp add: codeShaped_cabinCode)
  note tf = track_fold [OF nl f]
  have l0: "\<And>code. (case lowestCombined m of None \<Rightarrow> Map.empty | Some l \<Rightarrow> l) code = lowestCombinedAt m code"
    by (simp add: lowestCombinedAt_def split: option.splits)
  have "\<forall>code \<in> set (map cabinCode cs).
              currentCombinedAt m' code = pairOf outb ret now code \<and>
              lowestCombinedAt m' code = lowAfter (lowestCombinedAt m code) (pairOf outb ret now code) \<and>
              filter (isLowestLine code) a =
                lineAfter code (lowestCombinedAt m code) (pairOf outb ret now code)"
  proof
    fix code assume code: "code \<in> set (map cabinCode cs)"
    with nl have nc: "codeShaped code" by blast
    from tf code have "c code = pairOf outb ret now code" by auto
    moreover from tf code have "l code = lowAfter (lowestCombinedAt m code) (pairOf outb ret now code)"
      by (simp add: l0)
    moreover from tf nc code have "filter (isLowestLine code) a =
                lineAfter code (lowestCombinedAt m code) (pairOf outb ret now code)"
      by (simp add: l0 slotAlerts_not_lowest)
    ultimately show "currentCombinedAt m' code = pairOf outb ret now code \<and>
              lowestCombinedAt m' code = lowAfter (lowestCombinedAt m code) (pairOf outb ret now code) \<and>
              filter (isLowestLine code) a =
                lineAfter code (lowestCombinedAt m code) (pairOf outb ret now code)"
      by (simp add: currentCombinedAt_def lowestCombinedAt_def c l)
  qed
  with r k show ?thesis by blast
qed


lemma normalizeFlights_sample:
  "map asDeclared (normalizeFlights isoCompare sampleRaw [''business''] Rewards) = sampleOut"
  by (simp add: normalizeFlights_def sampleRaw_def sampleOut_def cabinCode_sample suffixOf_def
      reading sortBy_def isoCompare_sample asDeclared_def finite0_def)

lemma normalizeFlights_sampleRet:
  "map asDeclared (normalizeFlights isoCompare sampleRawRet [''business''] Rewards) = sampleRet"
  by (simp add: normalizeFlights_def sampleRawRet_def sampleRet_def cabinCode_sample suffixOf_def
      reading sortBy_def asDeclared_def finite0_def)

lemma sample_fetch:
  "fetchLeg sampleSearch (outbound sampleMonitor) (cabins sampleMonitor) (modeOf sampleMonitor) = Inr sampleOut"
  "fetchLeg sampleSearch (return sampleMonitor) (cabins sampleMonitor) (modeOf sampleMonitor) = Inr sampleRet"
  "cabins sampleMonitor = Some [''business'']"
  by (simp_all add: fetchLeg_def sampleSearch_def sampleMonitor_def modeOf_def
      normalizeFlights_sample normalizeFlights_sampleRet)



section \<open>Properties of the cash results\<close>

lemma findMonitor_replaceFirst:
  "findMonitor i ms = Some m \<Longrightarrow> idM m' = i \<Longrightarrow> findMonitor i (replaceFirst i m' ms) = Some m'"
  by (induction ms) (auto simp: findMonitor_def split: if_splits)

lemma findMonitor_id: "findMonitor i ms = Some m \<Longrightarrow> idM m = i"
  by (induction ms) (auto simp: findMonitor_def split: if_splits)

lemma cashCabinCode_eq: "cashCabinCode k = cabinCode k"
  by (simp add: cashCabinCode_def cabinCode_def CASH_CABIN_CODES_def CABIN_CODES_def)

lemma cashCabinLabel_eq: "cashCabinLabel code = codeLabel code"
  by (simp add: cashCabinLabel_def codeLabel_def CASH_CABIN_LABELS_def CODE_LABELS_def)

lemma trackCash_alt:
  "trackCash (c, l, a) (code, price) =
     (c(code \<mapsto> price), l(code := cashLowAfter (l code) price), a @ cashLineAfter code (l code) price)"
  by (simp add: trackCash_def cashLowAfter_def cashLineAfter_def cashImproves_def cashLine_def
      Let_def fun_upd_idem)

lemma isLowestCashLine_after:
  "codeShaped code \<Longrightarrow> codeShaped x \<Longrightarrow>
   filter (isLowestCashLine code) (cashLineAfter x prev price) =
     (if code = x then cashLineAfter x prev price else [])"
  using codeLabel_inj [of code x]
  by (auto simp: cashLineAfter_def isLowestCashLine_def cashLine_def cashCabinLabel_eq)

lemma map_fst_assign:
  "map fst (assign k v ps) = (if k \<in> set (map fst ps) then map fst ps else map fst ps @ [k])"
  by (induction ps) simp_all

lemma fst_assign: "set (map fst (assign k v ps)) = insert k (set (map fst ps))"
  unfolding map_fst_assign by (cases "k \<in> set (map fst ps)") (simp_all add: insert_absorb)

lemma distinct_assign: "distinct (map fst ps) \<Longrightarrow> distinct (map fst (assign k v ps))"
  unfolding map_fst_assign by simp

lemma foldl_invariant:
  "P acc \<Longrightarrow> (\<And>a x. P a \<Longrightarrow> P (f a x)) \<Longrightarrow> P (foldl f acc xs)"
  by (induction xs arbitrary: acc) simp_all

lemma cashKeys_assign: "cashKeys ps \<Longrightarrow> cashKeys (assign (cashCabinCode k) v ps)"
  unfolding cashKeys_def fst_assign
  using distinct_assign [of ps "cashCabinCode k" v] codeShaped_cabinCode [of k]
  by (simp add: cashCabinCode_eq)

lemma cashKeys_normalizePrices: "cashKeys (normalizePrices raw)"
  unfolding normalizePrices_def
proof (rule foldl_invariant)
  show "cashKeys []" by (simp add: cashKeys_def)
next
  fix a :: "(string \<times> CashRecord) list" and x :: "string \<times> CashRecord"
  assume "cashKeys a"
  then have "cashKeys (assign (cashCabinCode (fst x)) (snd x) a)" by (rule cashKeys_assign)
  then show "cashKeys (case x of (k, v) \<Rightarrow> assign (cashCabinCode k) v a)"
    by (simp add: split_def)
qed

lemma normalizePrices_keys:
  "distinct (map fst (normalizePrices raw))" "\<forall>k \<in> set (map fst (normalizePrices raw)). codeShaped k"
  using cashKeys_normalizePrices [of raw] by (simp_all add: cashKeys_def)

lemma set_objectEntries: "set (objectEntries ps) = set ps"
  by (auto simp: objectEntries_def)

lemma distinct_objectEntries:
  assumes "distinct (map fst ps)"
  shows "distinct (map fst (objectEntries ps))"
proof -
  from assms have d: "distinct ps" and i: "inj_on fst (set ps)"
    by (simp_all add: distinct_map)
  from d have "distinct (objectEntries ps)"
    by (auto simp: objectEntries_def)
  with i show ?thesis
    by (simp add: distinct_map set_objectEntries)
qed


lemma pricesOf_keys:
  "distinct (map fst (pricesOf result))" "\<forall>k \<in> set (map fst (pricesOf result)). codeShaped k"
  using normalizePrices_keys [of "case prices result of None \<Rightarrow> [] | Some ps \<Rightarrow> ps"]
  by (simp_all add: pricesOf_def distinct_objectEntries set_objectEntries)

lemma cash_fold:
  assumes "distinct (map fst es)" and "\<forall>k \<in> set (map fst es). codeShaped k"
    and "foldl trackCash (c0, l0, a0) es = (c, l, a)"
  shows "(\<forall>code. c code = (case map_of es code of None \<Rightarrow> c0 code | Some p \<Rightarrow> Some p)) \<and>
         (\<forall>code. l code = (case map_of es code of None \<Rightarrow> l0 code | Some p \<Rightarrow> cashLowAfter (l0 code) p)) \<and>
         (\<forall>code. codeShaped code \<longrightarrow>
            filter (isLowestCashLine code) a =
            filter (isLowestCashLine code) a0 @
              (case map_of es code of None \<Rightarrow> [] | Some p \<Rightarrow> cashLineAfter code (l0 code) p))"
  using assms
proof (induction es arbitrary: c l a rule: rev_induct)
  case Nil
  then show ?case by simp
next
  case (snoc e es)
  obtain x v where e: "e = (x, v)" by (cases e)
  obtain c1 l1 a1 where st: "foldl trackCash (c0, l0, a0) es = (c1, l1, a1)"
    using prod_cases3 by blast
  from snoc.prems e have d: "distinct (map fst es)" and nl: "\<forall>k \<in> set (map fst es). codeShaped k"
    and nx: "codeShaped x" and fresh: "x \<notin> fst ` set es"
    by simp_all
  from fresh have mx: "map_of es x = None" by (simp add: map_of_eq_None_iff)
  note ih = snoc.IH [OF d nl st]
  from ih have c1: "\<And>code. c1 code = (case map_of es code of None \<Rightarrow> c0 code | Some p \<Rightarrow> Some p)"
    and l1: "\<And>code. l1 code = (case map_of es code of None \<Rightarrow> l0 code | Some p \<Rightarrow> cashLowAfter (l0 code) p)"
    and a1: "\<And>code. codeShaped code \<Longrightarrow> filter (isLowestCashLine code) a1 =
            filter (isLowestCashLine code) a0 @
              (case map_of es code of None \<Rightarrow> [] | Some p \<Rightarrow> cashLineAfter code (l0 code) p)"
    by blast+
  from snoc.prems(3) st e have eq: "c = c1(x \<mapsto> v)" "l = l1(x := cashLowAfter (l1 x) v)"
      "a = a1 @ cashLineAfter x (l1 x) v"
    by (simp_all add: trackCash_alt)
  have l1x: "l1 x = l0 x" using l1 [of x] mx by simp
  have mo: "\<And>code. map_of (es @ [e]) code = (if code = x then Some v else map_of es code)"
    using mx by (auto simp: e map_add_def split: option.splits)
  have "\<forall>code. c code = (case map_of (es @ [e]) code of None \<Rightarrow> c0 code | Some p \<Rightarrow> Some p)"
    unfolding eq mo using c1 by simp
  moreover have "\<forall>code. l code = (case map_of (es @ [e]) code of None \<Rightarrow> l0 code | Some p \<Rightarrow> cashLowAfter (l0 code) p)"
    unfolding eq mo l1x using l1 by simp
  moreover have "\<forall>code. codeShaped code \<longrightarrow>
            filter (isLowestCashLine code) a =
            filter (isLowestCashLine code) a0 @
              (case map_of (es @ [e]) code of None \<Rightarrow> [] | Some p \<Rightarrow> cashLineAfter code (l0 code) p)"
  proof (intro allI impI)
    fix code assume nc: "codeShaped code"
    show "filter (isLowestCashLine code) a =
            filter (isLowestCashLine code) a0 @
              (case map_of (es @ [e]) code of None \<Rightarrow> [] | Some p \<Rightarrow> cashLineAfter code (l0 code) p)"
      unfolding eq mo l1x
      using a1 [OF nc] isLowestCashLine_after [OF nc nx, of "l0 x" v] mx
      by (cases "code = x") simp_all
  qed
  ultimately show ?case by blast
qed

lemma applyCashResult_tracks:
  "\<exists>m' lines.
     applyCashResult now m result = (m', lines) \<and>
     idM m' = idM m \<and> source m' = source m \<and> label m' = label m \<and> cashPending m' = Some False \<and>
     (\<forall>code. currentCashAt m' code =
               (case map_of (pricesOf result) code of None \<Rightarrow> currentCashAt m code | Some p \<Rightarrow> Some p)) \<and>
     (\<forall>code. lowestCashAt m' code =
               (case map_of (pricesOf result) code of
                  None \<Rightarrow> lowestCashAt m code
                | Some p \<Rightarrow> cashLowAfter (lowestCashAt m code) p)) \<and>
     (\<forall>code. codeShaped code \<longrightarrow>
        filter (isLowestCashLine code) lines =
          (case map_of (pricesOf result) code of
             None \<Rightarrow> []
           | Some p \<Rightarrow> cashLineAfter code (lowestCashAt m code) p))"
proof -
  let ?c0 = "case currentCash m of None \<Rightarrow> Map.empty | Some c \<Rightarrow> c"
  let ?l0 = "case lowestCash m of None \<Rightarrow> Map.empty | Some l \<Rightarrow> l"
  obtain c l a where f: "foldl trackCash (?c0, ?l0, []) (pricesOf result) = (c, l, a)"
    using prod_cases3 by blast
  have c0: "\<And>code. ?c0 code = currentCashAt m code"
    by (simp add: currentCashAt_def split: option.splits)
  have l0: "\<And>code. ?l0 code = lowestCashAt m code"
    by (simp add: lowestCashAt_def split: option.splits)
  note cf = cash_fold [OF pricesOf_keys f, unfolded c0 l0]
  let ?m' = "m\<lparr> cashPending := Some False,
                lastChecked := Some (case checkedAt result of None \<Rightarrow> now | Some t \<Rightarrow> if t = [] then now else t),
                currentCash := Some c, lowestCash := Some l \<rparr>"
  have r: "applyCashResult now m result = (?m', a)"
    using f by (simp add: applyCashResult_def pricesOf_def Let_def)
  have cm: "\<And>code. currentCashAt ?m' code = c code" "\<And>code. lowestCashAt ?m' code = l code"
    by (simp_all add: currentCashAt_def lowestCashAt_def)
  from cf have c: "\<forall>code. currentCashAt ?m' code =
               (case map_of (pricesOf result) code of None \<Rightarrow> currentCashAt m code | Some p \<Rightarrow> Some p)"
    and l: "\<forall>code. lowestCashAt ?m' code =
               (case map_of (pricesOf result) code of
                  None \<Rightarrow> lowestCashAt m code
                | Some p \<Rightarrow> cashLowAfter (lowestCashAt m code) p)"
    and a: "\<forall>code. codeShaped code \<longrightarrow>
        filter (isLowestCashLine code) a =
          (case map_of (pricesOf result) code of
             None \<Rightarrow> []
           | Some p \<Rightarrow> cashLineAfter code (lowestCashAt m code) p)"
    unfolding cm by simp_all
  show ?thesis
    by (intro exI [of _ ?m'] exI [of _ a] conjI r c l a) simp_all
qed














section \<open>Properties of the edit\<close>

lemma legDiffers_iff: "legDiffers a b \<longleftrightarrow> a \<noteq> b"
  by (cases a, cases b) (auto simp: legDiffers_def)

lemma coreChanged_value:
  assumes "coreChanged body m = Inr (chg, bc)"
  shows "chg \<longleftrightarrow> (bodyOutbound body \<noteq> outbound m \<or> bodyReturn body \<noteq> return m \<or>
                    bodyMode body \<noteq> modeOf m \<or> sort (bodyCabinList body) \<noteq> sort (cabinListOf m))"
  using assms
  by (auto simp: coreChanged_def legDiffers_iff bodyMode_def modeOf_def bodyCabinList_def cabinListOf_def
      split: option.splits if_splits)

lemma coreChanged_unchanged:
  assumes "bodyOutbound body = outbound m" and "bodyReturn body = return m"
    and "bodyMode body = modeOf m" and "sort (bodyCabinList body) = sort (cabinListOf m)"
  shows "coreChanged body m = Inl TypeError \<or> coreChanged body m = Inr (False, map_option sort (bodyCabins body))"
  using assms
  by (auto simp: coreChanged_def legDiffers_iff bodyMode_def modeOf_def bodyCabinList_def cabinListOf_def
      split: option.splits if_splits)

lemma putMonitor_ok:
  assumes "putMonitor getTime i files body = (200, files')"
    and "findMonitor i (readMonitors files) = Some m"
  shows "\<exists>chg bc m'.
           coreChanged body m = Inr (chg, bc) \<and>
           findMonitor i (readMonitors files') = Some m' \<and>
           trackingFields m' =
             (if chg then (None, None, None, None, None, None, None, None, None, None)
              else trackingFields m)"
proof -
  from assms obtain chg bc where cc: "coreChanged body m = Inr (chg, bc)"
    by (auto simp: putMonitor_def split: option.splits sum.splits)
  let ?edited = "m\<lparr> label := bodyLabel body, cabins := bc,
                     source := Some (case bodySource body of None \<Rightarrow> Awards | Some s \<Rightarrow> s),
                     availType := Some (case bodyAvailType body of None \<Rightarrow> Rewards | Some a \<Rightarrow> a),
                     outbound := bodyOutbound body, return := bodyReturn body \<rparr>"
  let ?m' = "if chg then clearTracking ?edited else ?edited"
  from assms cc have f: "files' = writeMonitors (replaceFirst i ?m' (readMonitors files)) files"
    by (auto simp: putMonitor_def Let_def split: option.splits)
  have "idM ?m' = i" using findMonitor_id [OF assms(2)] by (simp add: clearTracking_def)
  from findMonitor_replaceFirst [OF assms(2) this]
  have "findMonitor i (readMonitors files') = Some ?m'"
    by (simp add: f readMonitors_def writeMonitors_def)
  moreover have "trackingFields ?m' =
             (if chg then (None, None, None, None, None, None, None, None, None, None)
              else trackingFields m)"
    by (simp add: trackingFields_def clearTracking_def)
  ultimately show ?thesis using cc by blast
qed

lemma put_clears:
  assumes "putMonitor getTime i files body = (200, files')"
    and "findMonitor i (readMonitors files) = Some m"
    and "bodyOutbound body \<noteq> outbound m \<or> bodyReturn body \<noteq> return m \<or>
         bodyMode body \<noteq> modeOf m \<or> set (bodyCabinList body) \<noteq> set (cabinListOf m)"
  shows "\<exists>m'. findMonitor i (readMonitors files') = Some m' \<and>
              trackingFields m' = (None, None, None, None, None, None, None, None, None, None)"
proof -
  from putMonitor_ok [OF assms(1,2)] obtain chg bc m'
    where cc: "coreChanged body m = Inr (chg, bc)"
      and f: "findMonitor i (readMonitors files') = Some m'"
      and t: "trackingFields m' =
             (if chg then (None, None, None, None, None, None, None, None, None, None)
              else trackingFields m)"
    by blast
  have "set (bodyCabinList body) \<noteq> set (cabinListOf m) \<Longrightarrow>
        sort (bodyCabinList body) \<noteq> sort (cabinListOf m)"
    by (metis set_sort)
  with assms(3) coreChanged_value [OF cc] have chg by blast
  with f t show ?thesis by simp
qed

text \<open>
  Claim C5. When an edit is applied (the request passes the validation, the monitor exists
  and the handler answers 200) and the body differs from the stored monitor in a leg (its
  origin, destination, dateFrom or dateTo), in the availability mode or in the set of
  cabins, the ten tracking fields of the stored monitor are cleared.
\<close>

theorem put_core_change_clears_tracking:
  assumes "putMonitor getTime i files body = (200, files')"
    and "findMonitor i (readMonitors files) = Some m"
    and "bodyOutbound body \<noteq> outbound m \<or> bodyReturn body \<noteq> return m \<or>
         bodyMode body \<noteq> modeOf m \<or> set (bodyCabinList body) \<noteq> set (cabinListOf m)"
  shows "\<exists>m'. findMonitor i (readMonitors files') = Some m' \<and>
              currentCombined m' = None \<and> lowestCombined m' = None \<and> knownSlots m' = None \<and>
              lastOutbound m' = None \<and> lastReturn m' = None \<and> lastChecked m' = None \<and>
              currentCash m' = None \<and> lowestCash m' = None \<and>
              cashPending m' = None \<and> cashRequestedAt m' = None"
  using put_clears [OF assms] by (simp add: trackingFields_def)

lemma put_keeps:
  assumes "findMonitor i (readMonitors files) = Some m"
    and "bodyOutbound body = outbound m" and "bodyReturn body = return m"
    and "bodyMode body = modeOf m"
    and "mset (bodyCabinList body) = mset (cabinListOf m)"
  shows "\<exists>m'. findMonitor i (readMonitors (snd (putMonitor getTime i files body))) = Some m' \<and>
              trackingFields m' = trackingFields m"
proof (cases "fst (putMonitor getTime i files body) = 200")
  case True
  then have ok: "putMonitor getTime i files body = (200, snd (putMonitor getTime i files body))"
    by (metis prod.collapse)
  from putMonitor_ok [OF ok assms(1)] obtain chg bc m'
    where cc: "coreChanged body m = Inr (chg, bc)"
      and f: "findMonitor i (readMonitors (snd (putMonitor getTime i files body))) = Some m'"
      and t: "trackingFields m' =
             (if chg then (None, None, None, None, None, None, None, None, None, None)
              else trackingFields m)"
    by blast
  have "sort (bodyCabinList body) = sort (cabinListOf m)"
    using assms(5) by (intro properties_for_sort) simp_all
  with coreChanged_value [OF cc] assms(2-4) have "\<not> chg" by simp
  with f t show ?thesis by simp
next
  case False
  then have "snd (putMonitor getTime i files body) = files"
    by (auto simp: putMonitor_def Let_def split: option.splits sum.splits)
  with assms(1) show ?thesis by simp
qed

text \<open>
  Claim C9, amended: the cabin lists are compared as sorted lists, that is as multisets.
  When the legs, the availability mode and the multiset of cabins of the body are those of
  the stored monitor, the ten tracking fields of the stored monitor are what they were,
  whatever the handler answers.
\<close>

theorem put_core_unchanged_keeps_tracking:
  assumes "findMonitor i (readMonitors files) = Some m"
    and "bodyOutbound body = outbound m" and "bodyReturn body = return m"
    and "bodyMode body = modeOf m"
    and "mset (bodyCabinList body) = mset (cabinListOf m)"
  shows "\<exists>m'. findMonitor i (readMonitors (snd (putMonitor getTime i files body))) = Some m' \<and>
              currentCombined m' = currentCombined m \<and> lowestCombined m' = lowestCombined m \<and>
              knownSlots m' = knownSlots m \<and>
              lastOutbound m' = lastOutbound m \<and> lastReturn m' = lastReturn m \<and>
              lastChecked m' = lastChecked m \<and>
              currentCash m' = currentCash m \<and> lowestCash m' = lowestCash m \<and>
              cashPending m' = cashPending m \<and> cashRequestedAt m' = cashRequestedAt m"
  using put_keeps [OF assms, of getTime] by (simp add: trackingFields_def)

lemma sample_rangeErr:
  "rangeErr sampleGetTime sampleBody = None"
  "rangeErr sampleGetTime shorterBody = None"
  "rangeErr sampleGetTime duplicateBody = None"
  by (simp_all add: rangeErr_def validateLegDateRange_def sampleGetTime_def sampleBody_def
      shorterBody_def duplicateBody_def sampleTracked_def sampleMonitor_def MAX_DATE_RANGE_DAYS_SERVER_def)

lemma sample_find: "findMonitor ''m1'' (readMonitors sampleFiles) = Some sampleTracked"
  by (simp add: findMonitor_def readMonitors_def sampleFiles_def sampleTracked_def sampleMonitor_def)

lemma sample_coreChanged:
  "coreChanged shorterBody sampleTracked = Inr (True, Some [''business'', ''premium''])"
  "coreChanged sampleBody sampleTracked = Inr (False, Some [''business'', ''premium''])"
  "coreChanged duplicateBody sampleTracked = Inr (True, Some [''business'', ''premium'', ''premium''])"
  by (simp_all add: coreChanged_def legDiffers_def sampleBody_def shorterBody_def duplicateBody_def
      sampleTracked_def sampleMonitor_def)

lemma sample_put_status:
  "fst (putMonitor sampleGetTime ''m1'' sampleFiles shorterBody) = 200"
  "fst (putMonitor sampleGetTime ''m1'' sampleFiles duplicateBody) = 200"
  by (simp_all add: putMonitor_def sample_rangeErr sample_find sample_coreChanged Let_def)

theorem put_core_change_clears_tracking_witness:
  "map_option lastChecked
     (findMonitor ''m1'' (readMonitors (snd (putMonitor sampleGetTime ''m1'' sampleFiles shorterBody))))
     = Some None \<and>
   map_option knownSlots
     (findMonitor ''m1'' (readMonitors (snd (putMonitor sampleGetTime ''m1'' sampleFiles shorterBody))))
     = Some None"
proof -
  have ok: "putMonitor sampleGetTime ''m1'' sampleFiles shorterBody =
            (200, snd (putMonitor sampleGetTime ''m1'' sampleFiles shorterBody))"
    using sample_put_status(1) by (metis prod.collapse)
  have ch: "bodyOutbound shorterBody \<noteq> outbound sampleTracked \<or>
            bodyReturn shorterBody \<noteq> return sampleTracked \<or>
            bodyMode shorterBody \<noteq> modeOf sampleTracked \<or>
            set (bodyCabinList shorterBody) \<noteq> set (cabinListOf sampleTracked)"
    by (simp add: shorterBody_def sampleBody_def sampleTracked_def sampleMonitor_def)
  from put_core_change_clears_tracking [OF ok sample_find ch] show ?thesis by auto
qed

theorem put_core_unchanged_keeps_tracking_witness:
  "map_option lastChecked
     (findMonitor ''m1'' (readMonitors (snd (putMonitor sampleGetTime ''m1'' sampleFiles sampleBody))))
     = Some (Some ''2026-05-02T00:00:00.000Z'') \<and>
   map_option knownSlots
     (findMonitor ''m1'' (readMonitors (snd (putMonitor sampleGetTime ''m1'' sampleFiles sampleBody))))
     = Some (Some [''2026-06-02|J|out'', ''2026-06-20|J|ret''])"
proof -
  have a: "bodyOutbound sampleBody = outbound sampleTracked"
    "bodyReturn sampleBody = return sampleTracked"
    "bodyMode sampleBody = modeOf sampleTracked"
    "mset (bodyCabinList sampleBody) = mset (cabinListOf sampleTracked)"
    by (simp_all add: sampleBody_def sampleTracked_def sampleMonitor_def bodyMode_def modeOf_def
        bodyCabinList_def cabinListOf_def)
  from put_core_unchanged_keeps_tracking [OF sample_find a, of sampleGetTime]
  show ?thesis by (auto simp: sampleTracked_def)
qed

text \<open>The claim as stated, with the cabins compared as a set, fails: a body that names a
  cabin twice has the set of cabins of the monitor, and the edit clears the tracking.\<close>

theorem put_duplicate_cabin_clears_tracking:
  "bodyOutbound duplicateBody = outbound sampleTracked \<and>
   bodyReturn duplicateBody = return sampleTracked \<and>
   bodyMode duplicateBody = modeOf sampleTracked \<and>
   set (bodyCabinList duplicateBody) = set (cabinListOf sampleTracked) \<and>
   findMonitor ''m1'' (readMonitors sampleFiles) = Some sampleTracked \<and>
   lastChecked sampleTracked = Some ''2026-05-02T00:00:00.000Z'' \<and>
   map_option lastChecked
     (findMonitor ''m1'' (readMonitors (snd (putMonitor sampleGetTime ''m1'' sampleFiles duplicateBody))))
     = Some None"
proof -
  have ok: "putMonitor sampleGetTime ''m1'' sampleFiles duplicateBody =
            (200, snd (putMonitor sampleGetTime ''m1'' sampleFiles duplicateBody))"
    using sample_put_status(2) by (metis prod.collapse)
  from putMonitor_ok [OF ok sample_find]
  have "map_option lastChecked
     (findMonitor ''m1'' (readMonitors (snd (putMonitor sampleGetTime ''m1'' sampleFiles duplicateBody))))
     = Some None"
    by (auto simp: sample_coreChanged trackingFields_def)
  moreover have "set (bodyCabinList duplicateBody) = set (cabinListOf sampleTracked)"
    by (auto simp: duplicateBody_def sampleBody_def sampleTracked_def bodyCabinList_def cabinListOf_def)
  moreover have "bodyOutbound duplicateBody = outbound sampleTracked"
    "bodyReturn duplicateBody = return sampleTracked"
    "bodyMode duplicateBody = modeOf sampleTracked"
    "lastChecked sampleTracked = Some ''2026-05-02T00:00:00.000Z''"
    by (simp_all add: duplicateBody_def sampleBody_def sampleTracked_def sampleMonitor_def
        bodyMode_def modeOf_def)
  ultimately show ?thesis using sample_find by simp
qed

text \<open>
  Claim C7. A successful refresh of an awards monitor leaves as known slots the slots known
  before together with the key \<open>date|cabin|out\<close> of every outbound flight and the key
  \<open>date|cabin|ret\<close> of every return flight fetched, so the known slots only grow from
  refresh to refresh; an applied edit that changes a core field leaves no known slot.
\<close>

theorem knownSlots_grow_until_reset:
  assumes "fetchLeg search (outbound m) (cabins m) (modeOf m) = Inr outb"
    and "fetchLeg search (return m) (cabins m) (modeOf m) = Inr ret"
    and "cabins m = Some cs"
    and "putMonitor getTime i files body = (200, files')"
    and "findMonitor i (readMonitors files) = Some em"
    and "bodyOutbound body \<noteq> outbound em \<or> bodyReturn body \<noteq> return em \<or>
         bodyMode body \<noteq> modeOf em \<or> set (bodyCabinList body) \<noteq> set (cabinListOf em)"
  shows "(\<exists>m' lines.
            refreshMonitor search now m = Inr (m', lines) \<and>
            knownSlotsOf m' =
              knownSlotsOf m \<union> slotKey ''out'' ` set outb \<union> slotKey ''ret'' ` set ret \<and>
            knownSlotsOf m \<subseteq> knownSlotsOf m') \<and>
         (\<exists>em'. findMonitor i (readMonitors files') = Some em' \<and>
            knownSlots em' = None \<and> knownSlotsOf em' = {})"
proof
  from refreshMonitor_tracks [OF assms(1-3), of now]
  obtain m' lines where r: "refreshMonitor search now m = Inr (m', lines)"
    and k: "knownSlotsOf m' = knownSlotsOf m \<union> slotKey ''out'' ` set outb \<union> slotKey ''ret'' ` set ret"
    by blast
  from k have "knownSlotsOf m \<subseteq> knownSlotsOf m'" by blast
  with r k show "\<exists>m' lines.
            refreshMonitor search now m = Inr (m', lines) \<and>
            knownSlotsOf m' =
              knownSlotsOf m \<union> slotKey ''out'' ` set outb \<union> slotKey ''ret'' ` set ret \<and>
            knownSlotsOf m \<subseteq> knownSlotsOf m'"
    by blast
next
  from put_clears [OF assms(4-6)]
  show "\<exists>em'. findMonitor i (readMonitors files') = Some em' \<and>
            knownSlots em' = None \<and> knownSlotsOf em' = {}"
    by (auto simp: trackingFields_def knownSlotsOf_def)
qed

theorem knownSlots_grow_until_reset_witness:
  "(\<exists>m' lines.
      refreshMonitor sampleSearch ''2026-05-02T00:00:00.000Z'' sampleMonitor = Inr (m', lines) \<and>
      knownSlotsOf m' = {''2026-06-02|J|out'', ''2026-06-03|J|out'', ''2026-06-20|J|ret''}) \<and>
   map_option knownSlots
     (findMonitor ''m1'' (readMonitors (snd (putMonitor sampleGetTime ''m1'' sampleFiles shorterBody))))
     = Some None"
proof -
  have ok: "putMonitor sampleGetTime ''m1'' sampleFiles shorterBody =
            (200, snd (putMonitor sampleGetTime ''m1'' sampleFiles shorterBody))"
    using sample_put_status(1) by (metis prod.collapse)
  have ch: "bodyOutbound shorterBody \<noteq> outbound sampleTracked \<or>
            bodyReturn shorterBody \<noteq> return sampleTracked \<or>
            bodyMode shorterBody \<noteq> modeOf sampleTracked \<or>
            set (bodyCabinList shorterBody) \<noteq> set (cabinListOf sampleTracked)"
    by (simp add: shorterBody_def sampleBody_def sampleTracked_def sampleMonitor_def)
  have k0: "knownSlotsOf sampleMonitor = {}"
    by (simp add: knownSlotsOf_def sampleMonitor_def)
  have keys: "slotKey ''out'' ` set sampleOut \<union> slotKey ''ret'' ` set sampleRet =
              {''2026-06-02|J|out'', ''2026-06-03|J|out'', ''2026-06-20|J|ret''}"
    by (simp add: slotKey_def sampleOut_def sampleRet_def insert_commute)
  from knownSlots_grow_until_reset [OF sample_fetch ok sample_find ch,
      of "''2026-05-02T00:00:00.000Z''"]
  show ?thesis
    unfolding k0 by (auto simp: keys [symmetric])
qed

section \<open>Properties of the validation\<close>









section \<open>Properties of the refresh cycle\<close>

lemma refreshOne_keeps:
  "monitorsFile (docs (snd (refreshOne search now m st))) = monitorsFile (docs st) \<and>
   set (errorLog st) \<subseteq> set (errorLog (snd (refreshOne search now m st)))"
  by (auto simp: refreshOne_def Let_def split: sum.splits prod.splits)

lemma refreshLoop_keeps:
  "monitorsFile (docs (snd (refreshLoop search now ms st))) = monitorsFile (docs st) \<and>
   set (errorLog st) \<subseteq> set (errorLog (snd (refreshLoop search now ms st))) \<and>
   length (fst (refreshLoop search now ms st)) = length ms"
proof (induction ms arbitrary: st)
  case Nil
  show ?case by simp
next
  case (Cons m ms)
  obtain m' st' where one: "refreshOne search now m st = (m', st')" by (cases "refreshOne search now m st")
  obtain ms' st'' where rest: "refreshLoop search now ms st' = (ms', st'')"
    by (cases "refreshLoop search now ms st'")
  from refreshOne_keeps [of search now m st] one
  have a: "monitorsFile (docs st') = monitorsFile (docs st)" "set (errorLog st) \<subseteq> set (errorLog st')"
    by simp_all
  from Cons.IH [of st'] rest
  have b: "monitorsFile (docs st'') = monitorsFile (docs st')" "set (errorLog st') \<subseteq> set (errorLog st'')"
    "length ms' = length ms"
    by simp_all
  from a b show ?case by (auto simp: one rest)
qed

lemma refreshLoop_append:
  "refreshLoop search now (xs @ ys) st =
     (case refreshLoop search now xs st of
        (xs', st1) \<Rightarrow>
          (case refreshLoop search now ys st1 of
             (ys', st2) \<Rightarrow> (xs' @ ys', st2)))"
  by (induction xs arbitrary: st) (simp_all split: prod.splits)

lemma refreshMonitor_fetch_failed:
  assumes "isl (fetchLeg search (outbound m) (cabins m) (modeOf m)) \<or>
           isl (fetchLeg search (return m) (cabins m) (modeOf m))"
  shows "\<exists>e. refreshMonitor search now m = Inl e"
proof (cases "fetchLeg search (outbound m) (cabins m) (modeOf m)")
  case (Inl e)
  then show ?thesis using refreshMonitor_fails(1) by blast
next
  case (Inr outb)
  with assms obtain e where "fetchLeg search (return m) (cabins m) (modeOf m) = Inl e"
    by (cases "fetchLeg search (return m) (cabins m) (modeOf m)") auto
  with Inr show ?thesis using refreshMonitor_fails(2) by blast
qed

lemma refreshOne_failed:
  "source m \<noteq> Some Cash \<Longrightarrow> refreshMonitor search now m = Inl e \<Longrightarrow>
   refreshOne search now m st = (m, st\<lparr> errorLog := errorLog st @ [(label m, e)] \<rparr>)"
  by (simp add: refreshOne_def)

text \<open>
  Claim C8. When the fetch of either leg of an awards monitor fails, \<open>refreshMonitor\<close> fails
  as a whole; the step of the cycle for this monitor leaves the monitor and the documents
  (the alerts among them) as they are and adds one line to the error log; the cycle goes on
  with the monitors after it from that state; and in the documents \<open>refreshAll\<close> leaves,
  the monitor at this place is the monitor as it was.
\<close>

theorem failed_fetch_abandons_refresh:
  assumes "source m \<noteq> Some Cash"
    and "isl (fetchLeg search (outbound m) (cabins m) (modeOf m)) \<or>
         isl (fetchLeg search (return m) (cabins m) (modeOf m))"
  shows "\<exists>e. refreshMonitor search now m = Inl e \<and>
           refreshOne search now m st = (m, st\<lparr> errorLog := errorLog st @ [(label m, e)] \<rparr>) \<and>
           (case refreshLoop search now pre st of
              (pre', st1) \<Rightarrow>
                (case refreshLoop search now post (st1\<lparr> errorLog := errorLog st1 @ [(label m, e)] \<rparr>) of
                   (post', st2) \<Rightarrow>
                     refreshLoop search now (pre @ m # post) st = (pre' @ m # post', st2) \<and>
                     length pre' = length pre)) \<and>
           (readMonitors files = pre @ m # post \<longrightarrow>
              readMonitors (fst (refreshAll search now files)) ! length pre = m \<and>
              (label m, e) \<in> set (snd (refreshAll search now files)))"
proof -
  from refreshMonitor_fetch_failed [OF assms(2), of now]
  obtain e where e: "refreshMonitor search now m = Inl e" by blast
  note one = refreshOne_failed [OF assms(1) e]
  have loop: "\<And>st. case refreshLoop search now pre st of
              (pre', st1) \<Rightarrow>
                (case refreshLoop search now post (st1\<lparr> errorLog := errorLog st1 @ [(label m, e)] \<rparr>) of
                   (post', st2) \<Rightarrow>
                     refreshLoop search now (pre @ m # post) st = (pre' @ m # post', st2) \<and>
                     length pre' = length pre)"
  proof -
    fix st
    obtain pre' st1 where p: "refreshLoop search now pre st = (pre', st1)"
      by (cases "refreshLoop search now pre st")
    obtain post' st2
      where q: "refreshLoop search now post (st1\<lparr> errorLog := errorLog st1 @ [(label m, e)] \<rparr>) = (post', st2)"
      by (cases "refreshLoop search now post (st1\<lparr> errorLog := errorLog st1 @ [(label m, e)] \<rparr>)")
    from refreshLoop_keeps [of search now pre st] p have len: "length pre' = length pre" by simp
    have "refreshLoop search now (pre @ m # post) st = (pre' @ m # post', st2)"
      by (simp add: refreshLoop_append p one q)
    with len show "case refreshLoop search now pre st of
              (pre', st1) \<Rightarrow>
                (case refreshLoop search now post (st1\<lparr> errorLog := errorLog st1 @ [(label m, e)] \<rparr>) of
                   (post', st2) \<Rightarrow>
                     refreshLoop search now (pre @ m # post) st = (pre' @ m # post', st2) \<and>
                     length pre' = length pre)"
      by (simp add: p q)
  qed
  have all: "readMonitors files = pre @ m # post \<longrightarrow>
              readMonitors (fst (refreshAll search now files)) ! length pre = m \<and>
              (label m, e) \<in> set (snd (refreshAll search now files))"
  proof
    assume rm: "readMonitors files = pre @ m # post"
    let ?st0 = "\<lparr> docs = files, errorLog = [], changed = False \<rparr>"
    obtain pre' st1 where p: "refreshLoop search now pre ?st0 = (pre', st1)"
      by (cases "refreshLoop search now pre ?st0")
    obtain post' st2
      where q: "refreshLoop search now post (st1\<lparr> errorLog := errorLog st1 @ [(label m, e)] \<rparr>) = (post', st2)"
      by (cases "refreshLoop search now post (st1\<lparr> errorLog := errorLog st1 @ [(label m, e)] \<rparr>)")
    from loop [of ?st0] p q
    have l: "refreshLoop search now (pre @ m # post) ?st0 = (pre' @ m # post', st2)"
      and len: "length pre' = length pre"
      by simp_all
    from refreshLoop_keeps [of search now "pre @ m # post" ?st0] l
    have mf: "monitorsFile (docs st2) = monitorsFile files" by simp
    from refreshLoop_keeps [of search now post "st1\<lparr> errorLog := errorLog st1 @ [(label m, e)] \<rparr>"] q
    have lg: "(label m, e) \<in> set (errorLog st2)" by auto
    have ra: "refreshAll search now files =
              ((if changed st2 then writeMonitors (pre' @ m # post') (docs st2) else docs st2),
               errorLog st2)"
      by (simp add: refreshAll_def rm l)
    have "readMonitors (fst (refreshAll search now files)) ! length pre = m"
    proof (cases "changed st2")
      case True
      then have "readMonitors (fst (refreshAll search now files)) = pre' @ m # post'"
        by (simp add: ra readMonitors_def writeMonitors_def)
      with len show ?thesis by (simp add: nth_append)
    next
      case False
      then have "readMonitors (fst (refreshAll search now files)) = readMonitors files"
        by (simp add: ra readMonitors_def mf)
      with rm show ?thesis by (simp add: nth_append)
    qed
    moreover have "(label m, e) \<in> set (snd (refreshAll search now files))"
      using lg by (simp add: ra)
    ultimately show "readMonitors (fst (refreshAll search now files)) ! length pre = m \<and>
              (label m, e) \<in> set (snd (refreshAll search now files))" ..
  qed
  show ?thesis by (intro exI [of _ e] conjI e one loop all)
qed

lemma failing_fetch:
  "fetchLeg failingSearch (outbound sampleMonitor) (cabins sampleMonitor) (modeOf sampleMonitor)
     = Inl FetchFailed"
  by (simp add: fetchLeg_def failingSearch_def sampleMonitor_def)

lemma failing_steps:
  "refreshOne failingSearch now sampleMonitor st =
     (sampleMonitor, st\<lparr> errorLog := errorLog st @ [(''Boston'', FetchFailed)] \<rparr>)"
  "refreshOne failingSearch now idleCashMonitor st =
     (idleCashMonitor\<lparr> cashPending := Some True, cashRequestedAt := Some now \<rparr>,
      st\<lparr> docs := (docs st)\<lparr> cashRequestsFile :=
                 writeCashRequest (idleCashMonitor\<lparr> cashPending := Some True, cashRequestedAt := Some now \<rparr>)
                   (cashRequestsFile (docs st)) \<rparr>,
          changed := True \<rparr>)"
proof -
  have "source sampleMonitor \<noteq> Some Cash" "label sampleMonitor = ''Boston''"
    by (simp_all add: sampleMonitor_def)
  with refreshOne_failed [OF _ refreshMonitor_fails(1) [OF failing_fetch], of now st]
  show "refreshOne failingSearch now sampleMonitor st =
     (sampleMonitor, st\<lparr> errorLog := errorLog st @ [(''Boston'', FetchFailed)] \<rparr>)"
    by simp
  show "refreshOne failingSearch now idleCashMonitor st =
     (idleCashMonitor\<lparr> cashPending := Some True, cashRequestedAt := Some now \<rparr>,
      st\<lparr> docs := (docs st)\<lparr> cashRequestsFile :=
                 writeCashRequest (idleCashMonitor\<lparr> cashPending := Some True, cashRequestedAt := Some now \<rparr>)
                   (cashRequestsFile (docs st)) \<rparr>,
          changed := True \<rparr>)"
    by (simp add: refreshOne_def idleCashMonitor_def sampleCashMonitor_def Let_def)
qed

lemma failing_refreshAll:
  "refreshAll failingSearch now twoFiles =
     (twoFiles\<lparr> monitorsFile :=
                  Some [sampleMonitor,
                        idleCashMonitor\<lparr> cashPending := Some True, cashRequestedAt := Some now \<rparr>],
                cashRequestsFile :=
                  writeCashRequest
                    (idleCashMonitor\<lparr> cashPending := Some True, cashRequestedAt := Some now \<rparr>) None \<rparr>,
      [(''Boston'', FetchFailed)])"
  by (simp add: refreshAll_def readMonitors_def twoFiles_def failing_steps writeMonitors_def)

theorem failed_fetch_abandons_refresh_witness:
  "refreshMonitor failingSearch ''2026-05-02T00:00:00.000Z'' sampleMonitor = Inl FetchFailed \<and>
   readMonitors (fst (refreshAll failingSearch ''2026-05-02T00:00:00.000Z'' twoFiles)) ! 0 = sampleMonitor \<and>
   snd (refreshAll failingSearch ''2026-05-02T00:00:00.000Z'' twoFiles) = [(''Boston'', FetchFailed)] \<and>
   alertsFile (fst (refreshAll failingSearch ''2026-05-02T00:00:00.000Z'' twoFiles)) = None \<and>
   map cashPending (readMonitors (fst (refreshAll failingSearch ''2026-05-02T00:00:00.000Z'' twoFiles)))
     = [None, Some True]"
proof -
  have s: "source sampleMonitor \<noteq> Some Cash" by (simp add: sampleMonitor_def)
  have f: "isl (fetchLeg failingSearch (outbound sampleMonitor) (cabins sampleMonitor) (modeOf sampleMonitor)) \<or>
           isl (fetchLeg failingSearch (return sampleMonitor) (cabins sampleMonitor) (modeOf sampleMonitor))"
    by (simp add: failing_fetch)
  have r: "readMonitors twoFiles = [] @ sampleMonitor # [idleCashMonitor]"
    by (simp add: readMonitors_def twoFiles_def)
  from failed_fetch_abandons_refresh [OF s f, of "''2026-05-02T00:00:00.000Z''" _ "[]"
      "[idleCashMonitor]" twoFiles] r
  obtain e where "refreshMonitor failingSearch ''2026-05-02T00:00:00.000Z'' sampleMonitor = Inl e"
    and "readMonitors (fst (refreshAll failingSearch ''2026-05-02T00:00:00.000Z'' twoFiles)) ! 0 = sampleMonitor"
    and "(label sampleMonitor, e) \<in> set (snd (refreshAll failingSearch ''2026-05-02T00:00:00.000Z'' twoFiles))"
    by auto
  moreover have "alertsFile twoFiles = None" "cashPending sampleMonitor = None"
    by (simp_all add: twoFiles_def sampleMonitor_def)
  ultimately show ?thesis
    by (simp add: failing_refreshAll readMonitors_def refreshMonitor_fails(1) [OF failing_fetch])
qed

section \<open>Properties of the poll for cash results\<close>

lemma matchesCash_alt:
  "matchesCash ms r \<longleftrightarrow> map_option source (findMonitor (resMonitorId r) ms) = Some (Some Cash)"
  by (simp add: matchesCash_def split: option.splits)

lemma findMonitor_replaceFirst_other:
  "idM m' = i \<Longrightarrow> j \<noteq> i \<Longrightarrow> findMonitor j (replaceFirst i m' ms) = findMonitor j ms"
  by (induction ms) (auto simp: findMonitor_def)

lemma cashStep_effect:
  assumes "cashStep now (ms, al, chg) r = (ms', al', chg')"
  shows "chg' = (chg \<or> matchesCash ms r) \<and> (\<forall>r'. matchesCash ms' r' = matchesCash ms r')"
proof (cases "findMonitor (resMonitorId r) ms")
  case None
  with assms show ?thesis by (auto simp: cashStep_def matchesCash_def)
next
  case (Some m)
  show ?thesis
  proof (cases "source m = Some Cash")
    case False
    with assms Some show ?thesis by (auto simp: cashStep_def matchesCash_def)
  next
    case True
    from applyCashResult_tracks [of now m r]
    obtain m' lines where a: "applyCashResult now m r = (m', lines)"
      and i: "idM m' = idM m" and s: "source m' = source m"
      by blast
    from findMonitor_id [OF Some] i have i': "idM m' = resMonitorId r" by simp
    from assms Some True a have ms': "ms' = replaceFirst (resMonitorId r) m' ms" and c: "chg'"
      by (auto simp: cashStep_def)
    have "\<And>j. map_option source (findMonitor j ms') = map_option source (findMonitor j ms)"
    proof -
      fix j
      show "map_option source (findMonitor j ms') = map_option source (findMonitor j ms)"
      proof (cases "j = resMonitorId r")
        case True
        with findMonitor_replaceFirst [OF Some i'] Some s show ?thesis by (simp add: ms')
      next
        case False
        with findMonitor_replaceFirst_other [OF i', of j ms] show ?thesis by (simp add: ms')
      qed
    qed
    then have "\<And>r'. matchesCash ms' r' = matchesCash ms r'"
      by (simp only: matchesCash_alt)
    with c Some True show ?thesis by (simp add: matchesCash_def)
  qed
qed

lemma cashFold_changed:
  assumes "foldl (cashStep now) (ms, al, chg) results = (ms', al', chg')"
  shows "chg' = (chg \<or> (\<exists>r \<in> set results. matchesCash ms r))"
  using assms
proof (induction results arbitrary: ms al chg)
  case Nil
  then show ?case by simp
next
  case (Cons r results)
  obtain ms1 al1 chg1 where one: "cashStep now (ms, al, chg) r = (ms1, al1, chg1)"
    using prod_cases3 by blast
  from cashStep_effect [OF one]
  have c1: "chg1 = (chg \<or> matchesCash ms r)" and m1: "\<And>r'. matchesCash ms1 r' = matchesCash ms r'"
    by simp_all
  from Cons.prems one have "foldl (cashStep now) (ms1, al1, chg1) results = (ms', al', chg')" by simp
  from Cons.IH [OF this] have "chg' = (chg1 \<or> (\<exists>r \<in> set results. matchesCash ms1 r))" .
  with c1 m1 show ?case by auto
qed

lemma processCashResults_results:
  assumes "cashResultsFile files = Some results" and "results \<noteq> []"
  shows "cashResultsFile (processCashResults now files) =
           (if (\<exists>r \<in> set results. matchesCash (readMonitors files) r) then Some [] else Some results)"
proof -
  obtain ms' al' chg'
    where f: "foldl (cashStep now) (readMonitors files, alertsFile files, False) results = (ms', al', chg')"
    using prod_cases3 by blast
  from cashFold_changed [OF f] have "chg' = (\<exists>r \<in> set results. matchesCash (readMonitors files) r)"
    by simp
  with assms f show ?thesis
    by (simp add: processCashResults_def writeMonitors_def)
qed

text \<open>
  Claim C2, amended: the reset is guarded by the flag \<open>changed\<close>. For a poll that reads a
  non-empty list of results, the result document is reset to the empty list when at least
  one result belongs to a known cash monitor, and then a later poll does nothing; when no
  result belongs to one, the document still holds the results it held.
\<close>

theorem cash_results_reset_when_matched:
  assumes "cashResultsFile files = Some results" and "results \<noteq> []"
  shows "cashResultsFile (processCashResults now files) =
           (if (\<exists>r \<in> set results. matchesCash (readMonitors files) r) then Some [] else Some results) \<and>
         ((\<exists>r \<in> set results. matchesCash (readMonitors files) r) \<longrightarrow>
            processCashResults later (processCashResults now files) = processCashResults now files)"
proof
  show r: "cashResultsFile (processCashResults now files) =
           (if (\<exists>r \<in> set results. matchesCash (readMonitors files) r) then Some [] else Some results)"
    using assms by (rule processCashResults_results)
  show "(\<exists>r \<in> set results. matchesCash (readMonitors files) r) \<longrightarrow>
            processCashResults later (processCashResults now files) = processCashResults now files"
  proof
    assume "\<exists>r \<in> set results. matchesCash (readMonitors files) r"
    with r have "cashResultsFile (processCashResults now files) = Some []" by simp
    then show "processCashResults later (processCashResults now files) = processCashResults now files"
      by (simp add: processCashResults_def [of later])
  qed
qed

lemma sample_matches:
  "matchesCash (readMonitors resultFiles) sampleResult"
  "\<not> matchesCash (readMonitors strayFiles) strayResult"
  by (simp_all add: matchesCash_def findMonitor_def readMonitors_def resultFiles_def strayFiles_def
      strayResult_def sampleResult_def sampleCashMonitor_def sampleMonitor_def)

theorem cash_results_reset_when_matched_witness:
  "cashResultsFile (processCashResults ''2026-05-03T09:00:30.000Z'' resultFiles) = Some [] \<and>
   processCashResults ''2026-05-03T09:01:00.000Z''
     (processCashResults ''2026-05-03T09:00:30.000Z'' resultFiles)
   = processCashResults ''2026-05-03T09:00:30.000Z'' resultFiles"
proof -
  have a: "cashResultsFile resultFiles = Some [sampleResult]" "[sampleResult] \<noteq> []"
    by (simp_all add: resultFiles_def)
  from cash_results_reset_when_matched [OF a, of "''2026-05-03T09:00:30.000Z''" "''2026-05-03T09:01:00.000Z''"]
    sample_matches(1)
  show ?thesis by simp
qed

text \<open>The claim as stated, with the reset whatever the results match, fails: a result for
  a monitor that is not there stays in the document.\<close>

theorem unmatched_cash_results_are_kept:
  "cashResultsFile strayFiles = Some [strayResult] \<and>
   cashResultsFile (processCashResults ''2026-05-03T09:00:30.000Z'' strayFiles) = Some [strayResult] \<and>
   cashResultsFile (processCashResults ''2026-05-03T09:00:30.000Z'' strayFiles) \<noteq> Some []"
proof -
  have a: "cashResultsFile strayFiles = Some [strayResult]" "[strayResult] \<noteq> []"
    by (simp_all add: strayFiles_def)
  from processCashResults_results [OF a, of "''2026-05-03T09:00:30.000Z''"] sample_matches(2) a
  show ?thesis by simp
qed

section \<open>The pending flag of a cash monitor\<close>

text \<open>The cycle skips a cash monitor whose request is pending; the on-demand refresh of a
  cash monitor does not look at the flag.\<close>

lemma refreshOne_pending:
  "source m = Some Cash \<Longrightarrow> cashPending m = Some True \<Longrightarrow> refreshOne search now m st = (m, st)"
  by (simp add: refreshOne_def)

lemma postRefresh_cash:
  "findMonitor i (readMonitors files) = Some m \<Longrightarrow> source m = Some Cash \<Longrightarrow>
   postRefresh search now i files =
     (200, writeMonitors
             (replaceFirst i (m\<lparr> cashPending := Some True, cashRequestedAt := Some now \<rparr>) (readMonitors files))
             (files\<lparr> cashRequestsFile :=
                      writeCashRequest (m\<lparr> cashPending := Some True, cashRequestedAt := Some now \<rparr>)
                        (cashRequestsFile files) \<rparr>))"
  by (simp add: postRefresh_def Let_def)

lemma pending_facts:
  "source sampleCashMonitor = Some Cash" "cashPending sampleCashMonitor = Some True"
  "cashRequestedAt sampleCashMonitor = Some ''2026-05-02T08:00:00.000Z''"
  "idM sampleCashMonitor = ''c1''"
  "readMonitors pendingFiles = [sampleCashMonitor]"
  "findMonitor ''c1'' (readMonitors pendingFiles) = Some sampleCashMonitor"
  by (simp_all add: sampleCashMonitor_def readMonitors_def pendingFiles_def findMonitor_def)

text \<open>
  Claim C1. While the request of a cash monitor is pending, a refresh is to be a no-op, in
  the cycle and on demand alike. The cycle is: \<open>refreshAll\<close> leaves the documents as they
  are. The on-demand refresh is not: at 10:00 it answers 200, stamps the monitor with a new
  \<open>cashRequestedAt\<close> and rewrites its entry of the request document, which had been
  requested at 08:00.
\<close>

theorem on_demand_refresh_requeues_pending_monitor:
  "cashPending sampleCashMonitor = Some True \<and>
   map requestedAt (case cashRequestsFile pendingFiles of None \<Rightarrow> [] | Some rs \<Rightarrow> rs)
     = [Some ''2026-05-02T08:00:00.000Z''] \<and>
   refreshAll sampleSearch ''2026-05-02T10:00:00.000Z'' pendingFiles = (pendingFiles, []) \<and>
   fst (postRefresh sampleSearch ''2026-05-02T10:00:00.000Z'' ''c1'' pendingFiles) = 200 \<and>
   map_option cashRequestedAt
     (findMonitor ''c1''
        (readMonitors (snd (postRefresh sampleSearch ''2026-05-02T10:00:00.000Z'' ''c1'' pendingFiles))))
     = Some (Some ''2026-05-02T10:00:00.000Z'') \<and>
   map requestedAt
     (case cashRequestsFile (snd (postRefresh sampleSearch ''2026-05-02T10:00:00.000Z'' ''c1'' pendingFiles)) of
        None \<Rightarrow> [] | Some rs \<Rightarrow> rs)
     = [Some ''2026-05-02T10:00:00.000Z'']"
proof -
  have "refreshAll sampleSearch ''2026-05-02T10:00:00.000Z'' pendingFiles = (pendingFiles, [])"
    by (simp add: refreshAll_def pending_facts refreshOne_pending)
  moreover have "map requestedAt (case cashRequestsFile pendingFiles of None \<Rightarrow> [] | Some rs \<Rightarrow> rs)
     = [Some ''2026-05-02T08:00:00.000Z'']"
    by (simp add: pendingFiles_def writeCashRequest_def pending_facts)
  moreover note postRefresh_cash [OF pending_facts(6) pending_facts(1),
      of sampleSearch "''2026-05-02T10:00:00.000Z''"]
  ultimately show ?thesis
    by (simp add: pending_facts writeMonitors_def readMonitors_def findMonitor_def
        writeCashRequest_def pendingFiles_def)
qed


end
